theory Spec2Isabelle
  imports Complex_Main
begin

section \<open>The training script \<^verbatim>\<open>train.py\<close>\<close>

text \<open>
  A shallow embedding of \<^verbatim>\<open>train.py\<close>: \<^verbatim>\<open>main\<close>, \<^verbatim>\<open>train\<close> and
  \<^verbatim>\<open>validate\<close>. The script mutates two module globals, two networks, an optimizer,
  two CSV files and several summary writers; all of these are fields of one record that
  every function takes and returns. A Python exception is the left summand of the result;
  the state that comes with it is the state at the moment of the raise, since files and
  writers keep what was written before. Opening a file and writing a row to it are taken
  to succeed.

  Scalars (losses, weights, averages) are real numbers, the finite values of a float; NaN
  and the infinities are not modelled, and the running averages of \<^verbatim>\<open>AverageMeter\<close>,
  which Python computes in double precision, are exact here. The losses are tensors of
  32 bit floats, and their arithmetic rounds: the product of a weight and a loss and the
  sum of two losses are collaborators too, not the product and the sum of the reals. The
  networks, the loss functions, the data sets and the optimizer's update rule live in other
  modules; all collaborators are the fields of the record \<open>world\<close>. The terminal logger
  (\<^verbatim>\<open>TermLogger\<close>) and the two timing meters only print and are left out.
\<close>

subsection \<open>Data\<close>

datatype error = UnboundLocalError | IndexError | ValueError | ZeroDivisionError
  | EmptyStatisticError

text \<open>One row of \<^verbatim>\<open>pose.view(-1,6)\<close>: three translations and three rotations.\<close>

record pose =
  tx :: real
  ty :: real
  tz :: real
  rx :: real
  ry :: real
  rz :: real

definition zero_pose :: pose where
  "zero_pose = \<lparr>tx = 0, ty = 0, tz = 0, rx = 0, ry = 0, rz = 0\<rparr>"

text \<open>
  What a \<^verbatim>\<open>SummaryWriter\<close> receives. A tag is the format string of the source together
  with the numbers formatted into it; the last argument is the global step of the call.
  The picture itself is not recorded.
\<close>

datatype event =
    Scalar string real int
  | Image string "nat list" int
  | Histogram string "real list" int

text \<open>
  A row of a CSV file, as \<^verbatim>\<open>writer.writerow\<close> receives it: the names of a header, or
  the numbers of a data row.
\<close>

datatype csv_row = Header "string list" | Values "real list"

text \<open>
  The command line arguments that the three functions read. \<^verbatim>\<open>log_summary\<close> and
  \<^verbatim>\<open>log_full\<close> stand for the files that \<^verbatim>\<open>args.save_path/args.log_summary\<close> and
  \<^verbatim>\<open>args.save_path/args.log_full\<close> name: they are equal exactly when the two options name
  the same file.
\<close>

record args =
  dataset_format :: string
  epochs :: int
  epoch_size :: int
  batch_size :: int
  print_freq :: int
  photo_loss_weight :: real
  mask_loss_weight :: real
  smooth_loss_weight :: real
  sequence_length :: int
  log_output :: bool
  log_summary :: string
  log_full :: string

text \<open>
  A network (\<^verbatim>\<open>torch.nn.Module\<close>) as far as the script sees it: the identities of its
  parameter tensors, in the order \<^verbatim>\<open>parameters()\<close> yields them, and its mode. The values
  of the tensors are in the store \<open>tensors\<close> of the state, indexed by identity, so that
  two networks sharing a tensor alias it.
\<close>

record net =
  parameters :: "nat list"
  training :: bool

text \<open>
  A \<^verbatim>\<open>DataLoader\<close>: \<^verbatim>\<open>len(loader)\<close> and the batches of each pass over it (a shuffling
  loader yields other batches in each pass, always \<^verbatim>\<open>len(loader)\<close> of them).
\<close>

record 'b loader =
  num_batches :: nat
  batch_at :: "nat \<Rightarrow> nat \<Rightarrow> 'b"

definition iterate :: "'b loader \<Rightarrow> nat \<Rightarrow> 'b list" where
  "iterate L pass = map (batch_at L pass) [0..<num_batches L]"

datatype sequence_folder = Stacked | Sequential

text \<open>
  The collaborators from other modules. \<open>loss_terms\<close> is the forward pass of both
  networks followed by \<^verbatim>\<open>photometric_reconstruction_loss\<close>, \<^verbatim>\<open>explainability_loss\<close> and
  \<^verbatim>\<open>smooth_loss\<close>; \<open>pose_rows\<close> is \<^verbatim>\<open>pose.data.cpu().view(-1,6)\<close> of the same pass;
  \<open>num_scales\<close> is the length of the disparity pyramid in training mode; \<open>num_refs\<close> is
  \<^verbatim>\<open>len(ref_imgs)\<close>; \<open>adam_update\<close> is the new value of one parameter tensor (with its
  moment estimates) after \<^verbatim>\<open>zero_grad\<close>, \<^verbatim>\<open>backward\<close> at the given store and batch, and
  the update of Adam; \<open>scalar_mul\<close> is the product \<^verbatim>\<open>w * loss\<close> of a Python number and
  a loss tensor, \<open>tensor_add\<close> the sum \<^verbatim>\<open>x + y\<close> of two loss tensors, both as the device
  computes them.
\<close>

record ('v, 'b) world =
  train_set :: "sequence_folder \<Rightarrow> 'b loader"
  val_set :: "sequence_folder \<Rightarrow> 'b loader"
  disp_net_parameters :: "nat list"
  pose_exp_net_parameters :: "nat list"
  init_weights :: "nat \<Rightarrow> 'v"
  loss_terms :: "(nat \<Rightarrow> 'v) \<Rightarrow> net \<Rightarrow> net \<Rightarrow> 'b \<Rightarrow> real \<times> real \<times> real"
  pose_rows :: "(nat \<Rightarrow> 'v) \<Rightarrow> 'b \<Rightarrow> pose list"
  num_scales :: nat
  num_refs :: "'b \<Rightarrow> nat"
  adam_update :: "(nat \<Rightarrow> 'v) \<Rightarrow> 'b \<Rightarrow> nat \<Rightarrow> 'v \<Rightarrow> 'v"
  scalar_mul :: "real \<Rightarrow> real \<Rightarrow> real"
  tensor_add :: "real \<Rightarrow> real \<Rightarrow> real"

text \<open>
  The state of a run: the globals \<^verbatim>\<open>best_photo_loss\<close> and \<^verbatim>\<open>n_iter\<close>, the store of
  parameter tensors, the two networks, the number of \<^verbatim>\<open>optimizer.step()\<close> calls made,
  the rows of the files in the directory of the run (a file that does not exist has no
  row), the events of the writers, and the calls of \<^verbatim>\<open>save_checkpoint\<close> (epoch tag and
  \<^verbatim>\<open>is_best\<close>).
\<close>

record 'v state =
  best_photo_loss :: real
  n_iter :: int
  tensors :: "nat \<Rightarrow> 'v"
  disp_net :: net
  pose_exp_net :: net
  adam_steps :: nat
  files :: "string \<Rightarrow> csv_row list"
  train_writer :: "event list"
  valid_writer :: "event list"
  output_writers :: "event list list"
  checkpoints :: "(int \<times> bool) list"

subsection \<open>AverageMeter\<close>

text \<open>
  Modelled from the spec: the class \<^verbatim>\<open>AverageMeter\<close> of module \<^verbatim>\<open>logger\<close> is not among
  the sources. The specification (RunningStatistic) gives it a sum, a count and the last
  value; \<^verbatim>\<open>update(value, weight)\<close> adds \<open>value * weight\<close> to the sum and \<open>weight\<close>
  to the count; the average is sum / count and fails with EmptyStatisticError when the
  count is 0.
\<close>

record average_meter =
  meter_sum :: real
  meter_count :: int
  meter_val :: real

definition reset :: average_meter where
  "reset = \<lparr>meter_sum = 0, meter_count = 0, meter_val = 0\<rparr>"

definition update :: "average_meter \<Rightarrow> real \<Rightarrow> int \<Rightarrow> average_meter" where
  "update m v n =
     \<lparr>meter_sum = meter_sum m + v * of_int n, meter_count = meter_count m + n, meter_val = v\<rparr>"

definition avg :: "average_meter \<Rightarrow> error + real" where
  "avg m = (if meter_count m = 0 then Inl EmptyStatisticError
            else Inr (meter_sum m / of_int (meter_count m)))"

subsection \<open>The optimizer\<close>

text \<open>
  Lines 154 to 159. \<^verbatim>\<open>parameters\<close> is a Python set of tensors, compared by identity.
  \<^verbatim>\<open>Adam\<close> keeps \<^verbatim>\<open>list(parameters)\<close>; the order of a set's elements is not fixed
  by Python, the model takes them by increasing identity. \<^verbatim>\<open>optimizer.step()\<close> goes
  through that list and updates the tensor of each entry from the gradient that
  \<^verbatim>\<open>backward\<close> computed at the store before the step.
\<close>

definition combined_parameters :: "net list \<Rightarrow> nat set" where
  "combined_parameters nets = fold (\<lambda>net' ps. ps \<union> set (parameters net')) nets {}"

definition Adam :: "nat set \<Rightarrow> nat list" where
  "Adam ps = sorted_list_of_set ps"

definition optimizer_step ::
  "('v, 'b) world \<Rightarrow> 'b \<Rightarrow> nat list \<Rightarrow> (nat \<Rightarrow> 'v) \<Rightarrow> nat \<Rightarrow> 'v" where
  "optimizer_step W b optimizer t =
     fold (\<lambda>k t'. t'(k := adam_update W t b k (t' k))) optimizer t"

subsection \<open>The total loss\<close>

text \<open>
  The expression \<^verbatim>\<open>w1*loss_1 + w2*loss_2 + w3*loss_3\<close> of lines 242 and 357, with the
  three weights of the arguments: three products and two sums, from left to right.
\<close>

definition weighted_loss :: "('v, 'b) world \<Rightarrow> args \<Rightarrow> real \<Rightarrow> real \<Rightarrow> real \<Rightarrow> real" where
  "weighted_loss W a loss_1 loss_2 loss_3 =
     tensor_add W
       (tensor_add W (scalar_mul W (photo_loss_weight a) loss_1)
                     (scalar_mul W (mask_loss_weight a) loss_2))
       (scalar_mul W (smooth_loss_weight a) loss_3)"

subsection \<open>train\<close>

text \<open>
  Lines 249 to 273, the body of \<^verbatim>\<open>if n_iter%200 == 0 and args.log_output\<close>: the images
  written to \<^verbatim>\<open>train_writer\<close>, and the IndexError of \<^verbatim>\<open>ref_imgs[0]\<close> or
  \<^verbatim>\<open>ref_imgs[1]\<close> when the batch has fewer than two reference images (the arguments of
  a call are evaluated before the call, so the images before the failing one are written).
\<close>

definition train_log_output :: "nat \<Rightarrow> nat \<Rightarrow> int \<Rightarrow> (error + unit) \<times> event list" where
  "train_log_output refs scales n =
     (if refs = 0 then (Inl IndexError, [])
      else if refs = 1 then
        (Inl IndexError, [Image ''train Input'' [] (n - 1), Image ''train Input'' [] n])
      else
        (Inr (),
         [Image ''train Input'' [] (n - 1), Image ''train Input'' [] n,
          Image ''train Input'' [] (n + 1)] @
         concat (map (\<lambda>k.
           [Image ''train Dispnet Output {}'' [k] n,
            Image ''train Depth Output Normalized {}'' [k] n] @
           concat (map (\<lambda>j.
             [Image ''train Warped Outputs {} {}'' [k, j] n,
              Image ''train Diff Outputs {} {}'' [k, j] n,
              Image ''train Exp mask Outputs {} {}'' [k, j] n]) [0..<refs])) [0..<scales])))"

text \<open>
  The body of the loop of \<^verbatim>\<open>train\<close> up to and including the test of
  \<^verbatim>\<open>i % args.print_freq\<close> (lines 226 to 296), which raises when \<^verbatim>\<open>print_freq\<close> is 0.
\<close>

definition train_batch ::
  "('v, 'b) world \<Rightarrow> args \<Rightarrow> nat list \<Rightarrow> nat \<Rightarrow> 'b \<Rightarrow> average_meter \<Rightarrow> 'v state
   \<Rightarrow> (error + average_meter) \<times> 'v state" where
  "train_batch W a optimizer i b losses s =
     (case loss_terms W (tensors s) (disp_net s) (pose_exp_net s) b of
        (loss_1, loss_2, loss_3) \<Rightarrow>
     (let loss = weighted_loss W a loss_1 loss_2 loss_3;
          n = n_iter s;
          s1 = s\<lparr>train_writer := train_writer s @
                 [Scalar ''photometric_error'' loss_1 n,
                  Scalar ''explanability_loss'' loss_2 n,
                  Scalar ''disparity_smoothness_loss'' loss_3 n,
                  Scalar ''total_loss'' loss n]\<rparr>;
          logged = (if n mod 200 = 0 \<and> log_output a
                    then train_log_output (num_refs W b) (num_scales W) n
                    else (Inr (), []));
          s2 = s1\<lparr>train_writer := train_writer s1 @ snd logged\<rparr>
      in case fst logged of
           Inl e \<Rightarrow> (Inl e, s2)
         | Inr _ \<Rightarrow>
             (let losses' = update losses loss (batch_size a);
                  s3 = s2\<lparr>tensors := optimizer_step W b optimizer (tensors s2),
                          adam_steps := adam_steps s2 + 1,
                          files := (files s2)(log_full a := files s2 (log_full a)
                                     @ [Values [loss, loss_1, loss_2, loss_3]])\<rparr>
              in if print_freq a = 0 then (Inl ZeroDivisionError, s3)
                 else (Inr losses', s3))))"

text \<open>
  The loop of \<^verbatim>\<open>train\<close> over \<^verbatim>\<open>enumerate(train_loader)\<close>, with its last two statements
  (lines 297 to 300): \<^verbatim>\<open>if i >= epoch_size - 1: break\<close> and then \<^verbatim>\<open>n_iter += 1\<close>.
\<close>

fun train_loop ::
  "('v, 'b) world \<Rightarrow> args \<Rightarrow> nat list \<Rightarrow> int \<Rightarrow> (nat \<times> 'b) list \<Rightarrow> average_meter \<Rightarrow> 'v state
   \<Rightarrow> (error + average_meter) \<times> 'v state" where
  "train_loop W a optimizer epoch_size' [] losses s = (Inr losses, s)"
| "train_loop W a optimizer epoch_size' ((i, b) # rest) losses s =
     (case train_batch W a optimizer i b losses s of
        (Inl e, s') \<Rightarrow> (Inl e, s')
      | (Inr losses', s') \<Rightarrow>
          if int i \<ge> epoch_size' - 1 then (Inr losses', s')
          else train_loop W a optimizer epoch_size' rest losses' (s'\<lparr>n_iter := n_iter s' + 1\<rparr>))"

definition train ::
  "('v, 'b) world \<Rightarrow> args \<Rightarrow> 'b list \<Rightarrow> nat list \<Rightarrow> int \<Rightarrow> 'v state
   \<Rightarrow> (error + real) \<times> 'v state" where
  "train W a train_loader optimizer epoch_size' s =
     (let s1 = s\<lparr>disp_net := (disp_net s)\<lparr>training := True\<rparr>,
                 pose_exp_net := (pose_exp_net s)\<lparr>training := True\<rparr>\<rparr>
      in case train_loop W a optimizer epoch_size' (enumerate 0 train_loader) reset s1 of
           (Inl e, s') \<Rightarrow> (Inl e, s')
         | (Inr losses, s') \<Rightarrow> (avg losses, s'))"

subsection \<open>validate\<close>

text \<open>
  \<^verbatim>\<open>np.zeros((rows, 6))\<close> raises ValueError for a negative number of rows.
\<close>

definition np_zeros :: "int \<Rightarrow> error + pose list" where
  "np_zeros rows = (if rows < 0 then Inl ValueError else Inr (replicate (nat rows) zero_pose))"

text \<open>
  \<^verbatim>\<open>poses[lo:hi] = v\<close> on a numpy array of rows: a negative bound counts from the end,
  both bounds are clipped to the array, and the rows of \<open>v\<close> must be as many as the slice
  has, or one row, which is then repeated; otherwise ValueError.
\<close>

definition slice_index :: "nat \<Rightarrow> int \<Rightarrow> nat" where
  "slice_index len k = (if k < 0 then nat (max 0 (k + int len)) else min (nat k) len)"

definition setslice :: "int \<Rightarrow> int \<Rightarrow> 'a list \<Rightarrow> 'a list \<Rightarrow> error + 'a list" where
  "setslice lo hi v xs =
     (let l = slice_index (length xs) lo;
          h = slice_index (length xs) hi;
          m = h - l
      in if length v = m then Inr (take l xs @ v @ drop (l + m) xs)
         else if length v = 1 then Inr (take l xs @ replicate m (hd v) @ drop (l + m) xs)
         else Inl ValueError)"

text \<open>
  Lines 338 to 350: the images one selected writer of \<^verbatim>\<open>output_writers\<close> receives for a
  batch. The two \<^verbatim>\<open>val Input\<close> images of each reference (the target at step 0, the
  reference at step 1) are written in epoch 0 only.
\<close>

definition validate_log_output :: "nat \<Rightarrow> nat \<Rightarrow> event list" where
  "validate_log_output refs epoch =
     (if epoch = 0
      then concat (map (\<lambda>j. [Image ''val Input {}'' [j] 0, Image ''val Input {}'' [j] 1])
             [0..<refs])
      else []) @
     [Image ''val Dispnet Output'' [] (int epoch),
      Image ''val Depth Output Normalized'' [] (int epoch)] @
     concat (map (\<lambda>j.
       [Image ''val Warped Outputs {}'' [j] (int epoch),
        Image ''val Diff Outputs {}'' [j] (int epoch),
        Image ''val Exp mask Outputs {}'' [j] (int epoch)]) [0..<refs])"

text \<open>The local variables of \<^verbatim>\<open>validate\<close> that its loop changes.\<close>

record val_locals =
  poses :: "pose list"
  losses :: average_meter
  losses1 :: average_meter
  losses2 :: average_meter

text \<open>
  Lines 336 to 350: batch \<open>i\<close> is logged to the writer \<open>i // 100\<close> when output is
  logged, \<open>i % 100 == 0\<close> and \<open>i / 100 < len(output_writers)\<close> (a division of floats).
\<close>

definition log_batch_output ::
  "('v, 'b) world \<Rightarrow> bool \<Rightarrow> nat \<Rightarrow> nat \<Rightarrow> 'b \<Rightarrow> 'v state \<Rightarrow> 'v state" where
  "log_batch_output W log_outputs epoch i b s =
     (if log_outputs \<and> i mod 100 = 0 \<and> real i / 100 < real (length (output_writers s))
      then s\<lparr>output_writers := (output_writers s)
             [i div 100 := output_writers s ! (i div 100)
                @ validate_log_output (num_refs W b) epoch]\<rparr>
      else s)"

text \<open>
  Lines 352 to 354: the poses of batch \<open>i\<close> go to the rows from \<open>i * step\<close> up to
  \<open>(i + 1) * step\<close> of the buffer when output is logged and \<open>i < len(val_loader) - 1\<close>.
\<close>

definition store_batch_poses ::
  "('v, 'b) world \<Rightarrow> args \<Rightarrow> nat \<Rightarrow> bool \<Rightarrow> nat \<Rightarrow> 'b \<Rightarrow> 'v state \<Rightarrow> pose list
   \<Rightarrow> error + pose list" where
  "store_batch_poses W a len_val_loader log_outputs i b s ps =
     (if log_outputs \<and> int i < int len_val_loader - 1
      then (let step = batch_size a * (sequence_length a - 1)
            in setslice (int i * step) ((int i + 1) * step) (pose_rows W (tensors s) b) ps)
      else Inr ps)"

text \<open>
  The body of the loop of \<^verbatim>\<open>validate\<close> (lines 322 to 371). \<open>len_val_loader\<close> is
  \<^verbatim>\<open>len(val_loader)\<close>.
\<close>

definition validate_batch ::
  "('v, 'b) world \<Rightarrow> args \<Rightarrow> nat \<Rightarrow> bool \<Rightarrow> nat \<Rightarrow> nat \<Rightarrow> 'b \<Rightarrow> val_locals \<Rightarrow> 'v state
   \<Rightarrow> (error + val_locals) \<times> 'v state" where
  "validate_batch W a len_val_loader log_outputs epoch i b L s =
     (case loss_terms W (tensors s) (disp_net s) (pose_exp_net s) b of
        (loss_1, loss_2, loss_3) \<Rightarrow>
     (let s1 = log_batch_output W log_outputs epoch i b s
      in case store_batch_poses W a len_val_loader log_outputs i b s (poses L) of
           Inl e \<Rightarrow> (Inl e, s1)
         | Inr poses' \<Rightarrow>
             (let loss = weighted_loss W a loss_1 loss_2 loss_3;
                  L' = \<lparr>poses = poses', losses = update (losses L) loss 1,
                        losses1 = update (losses1 L) loss_1 1,
                        losses2 = update (losses2 L) loss_2 1\<rparr>
              in if print_freq a = 0 then (Inl ZeroDivisionError, s1) else (Inr L', s1))))"

fun validate_loop ::
  "('v, 'b) world \<Rightarrow> args \<Rightarrow> nat \<Rightarrow> bool \<Rightarrow> nat \<Rightarrow> (nat \<times> 'b) list \<Rightarrow> val_locals \<Rightarrow> 'v state
   \<Rightarrow> (error + val_locals) \<times> 'v state" where
  "validate_loop W a len_val_loader log_outputs epoch [] L s = (Inr L, s)"
| "validate_loop W a len_val_loader log_outputs epoch ((i, b) # rest) L s =
     (case validate_batch W a len_val_loader log_outputs epoch i b L s of
        (Inl e, s') \<Rightarrow> (Inl e, s')
      | (Inr L', s') \<Rightarrow> validate_loop W a len_val_loader log_outputs epoch rest L' s')"

text \<open>The six histograms of lines 373 to 378.\<close>

definition pose_histograms :: "pose list \<Rightarrow> nat \<Rightarrow> event list" where
  "pose_histograms ps epoch =
     [Histogram ''val poses_tx'' (map tx ps) (int epoch),
      Histogram ''val poses_ty'' (map ty ps) (int epoch),
      Histogram ''val poses_tz'' (map tz ps) (int epoch),
      Histogram ''val poses_rx'' (map rx ps) (int epoch),
      Histogram ''val poses_ry'' (map ry ps) (int epoch),
      Histogram ''val poses_rz'' (map rz ps) (int epoch)]"

text \<open>
  The end of \<^verbatim>\<open>validate\<close> (lines 372 to 381): the histograms, then the three averages,
  read in the order \<^verbatim>\<open>losses1.avg, losses2.avg, losses.avg\<close>.
\<close>

definition validate_return ::
  "bool \<Rightarrow> nat \<Rightarrow> val_locals \<Rightarrow> 'v state \<Rightarrow> (error + real \<times> real \<times> real) \<times> 'v state" where
  "validate_return log_outputs epoch L s =
     (let s' = (if log_outputs
                then s\<lparr>output_writers := (output_writers s)
                       [0 := output_writers s ! 0 @ pose_histograms (poses L) epoch]\<rparr>
                else s)
      in case avg (losses1 L) of
           Inl e \<Rightarrow> (Inl e, s')
         | Inr avg1 \<Rightarrow>
             (case avg (losses2 L) of
                Inl e \<Rightarrow> (Inl e, s')
              | Inr avg2 \<Rightarrow>
                  (case avg (losses L) of
                     Inl e \<Rightarrow> (Inl e, s')
                   | Inr avg0 \<Rightarrow> (Inr (avg1, avg2, avg0), s'))))"

definition validate ::
  "('v, 'b) world \<Rightarrow> args \<Rightarrow> 'b list \<Rightarrow> nat \<Rightarrow> 'v state
   \<Rightarrow> (error + real \<times> real \<times> real) \<times> 'v state" where
  "validate W a val_loader epoch s =
     (let log_outputs = (length (output_writers s) > 0) in
      case np_zeros ((int (length val_loader) - 1) * batch_size a * (sequence_length a - 1)) of
        Inl e \<Rightarrow> (Inl e, s)
      | Inr zeros \<Rightarrow>
          (case validate_loop W a (length val_loader) log_outputs epoch (enumerate 0 val_loader)
                  \<lparr>poses = zeros, losses = reset, losses1 = reset, losses2 = reset\<rparr>
                  (s\<lparr>disp_net := (disp_net s)\<lparr>training := False\<rparr>,
                     pose_exp_net := (pose_exp_net s)\<lparr>training := False\<rparr>\<rparr>) of
             (Inl e, s') \<Rightarrow> (Inl e, s')
           | (Inr L, s') \<Rightarrow> validate_return log_outputs epoch L s'))"

subsection \<open>main\<close>

text \<open>
  Lines 186 to 208, after \<^verbatim>\<open>validate\<close> has returned: the three scalars of
  \<^verbatim>\<open>valid_writer\<close>, the update of \<^verbatim>\<open>best_photo_loss\<close>, \<^verbatim>\<open>save_checkpoint\<close> and the row
  appended to the file \<^verbatim>\<open>args.log_summary\<close>.
\<close>

definition checkpoint ::
  "args \<Rightarrow> nat \<Rightarrow> real \<Rightarrow> real \<Rightarrow> real \<Rightarrow> real \<Rightarrow> 'v state \<Rightarrow> 'v state" where
  "checkpoint a epoch train_loss valid_photo_loss valid_exp_loss valid_total_loss s =
     (let n = n_iter s;
          s1 = s\<lparr>valid_writer := valid_writer s @
                 [Scalar ''photometric_error'' (valid_photo_loss * 4) n,
                  Scalar ''explanability_loss'' (valid_exp_loss * 4) n,
                  Scalar ''total_loss'' (valid_total_loss * 4) n]\<rparr>;
          best1 = (if best_photo_loss s1 < 0 then valid_photo_loss else best_photo_loss s1);
          is_best = (valid_photo_loss < best1);
          best2 = min valid_photo_loss best1
      in s1\<lparr>best_photo_loss := best2,
            checkpoints := checkpoints s1 @ [(int epoch + 1, is_best)],
            files := (files s1)(log_summary a := files s1 (log_summary a)
                       @ [Values [train_loss, valid_total_loss]])\<rparr>)"

text \<open>One round of the loop \<^verbatim>\<open>for epoch in range(args.epochs)\<close>, and the loop.\<close>

definition epoch_body ::
  "('v, 'b) world \<Rightarrow> args \<Rightarrow> 'b loader \<Rightarrow> 'b loader \<Rightarrow> nat list \<Rightarrow> int \<Rightarrow> nat \<Rightarrow> 'v state
   \<Rightarrow> (error + unit) \<times> 'v state" where
  "epoch_body W a train_loader val_loader optimizer epoch_size' epoch s =
     (case train W a (iterate train_loader epoch) optimizer epoch_size' s of
        (Inl e, s1) \<Rightarrow> (Inl e, s1)
      | (Inr train_loss, s1) \<Rightarrow>
          (case validate W a (iterate val_loader epoch) epoch s1 of
             (Inl e, s2) \<Rightarrow> (Inl e, s2)
           | (Inr (valid_photo_loss, valid_exp_loss, valid_total_loss), s2) \<Rightarrow>
               (Inr (), checkpoint a epoch train_loss valid_photo_loss valid_exp_loss
                          valid_total_loss s2)))"

fun epochs_loop ::
  "('v, 'b) world \<Rightarrow> args \<Rightarrow> 'b loader \<Rightarrow> 'b loader \<Rightarrow> nat list \<Rightarrow> int \<Rightarrow> nat list \<Rightarrow> 'v state
   \<Rightarrow> (error + unit) \<times> 'v state" where
  "epochs_loop W a train_loader val_loader optimizer epoch_size' [] s = (Inr (), s)"
| "epochs_loop W a train_loader val_loader optimizer epoch_size' (epoch # rest) s =
     (case epoch_body W a train_loader val_loader optimizer epoch_size' epoch s of
        (Inl e, s') \<Rightarrow> (Inl e, s')
      | (Inr _, s') \<Rightarrow> epochs_loop W a train_loader val_loader optimizer epoch_size' rest s')"

text \<open>
  The state when \<^verbatim>\<open>main\<close> starts: the globals of lines 66 and 67, the networks as
  created and initialised, empty writers (three output writers with \<^verbatim>\<open>--log-output\<close>,
  none without), no file in the new directory of the run.
\<close>

definition initial :: "('v, 'b) world \<Rightarrow> args \<Rightarrow> 'v state" where
  "initial W a =
     \<lparr>best_photo_loss = - 1, n_iter = 0, tensors = init_weights W,
      disp_net = \<lparr>parameters = disp_net_parameters W, training = True\<rparr>,
      pose_exp_net = \<lparr>parameters = pose_exp_net_parameters W, training = True\<rparr>,
      adam_steps = 0, files = (\<lambda>_. []),
      train_writer = [], valid_writer = [],
      output_writers = (if log_output a then [[], [], []] else []),
      checkpoints = []\<rparr>"

text \<open>
  Lines 161 to 167: each of the two files is opened for writing, which empties it, and
  receives its header; the summary file first.
\<close>

definition start_logs :: "args \<Rightarrow> 'v state \<Rightarrow> 'v state" where
  "start_logs a s =
     s\<lparr>files := ((files s)(log_summary a := [Header [''train_loss'', ''validation_loss'']]))
            (log_full a := [Header [''train_loss'', ''photo_loss'', ''explainability_loss'',
                                    ''smooth_loss'']])\<rparr>"

text \<open>
  \<^verbatim>\<open>main\<close>. The name \<^verbatim>\<open>SequenceFolder\<close> is bound by one of the two imports of lines 72
  to 75 and by nothing else; its first use, at line 105, raises UnboundLocalError when
  neither import ran. The \<^verbatim>\<open>DataLoader\<close> of line 121 refuses a batch size that is not
  positive with ValueError.
\<close>

definition main :: "('v, 'b) world \<Rightarrow> args \<Rightarrow> (error + unit) \<times> 'v state" where
  "main W a =
     (let SequenceFolder =
            (if dataset_format a = ''stacked'' then Some Stacked
             else if dataset_format a = ''sequential'' then Some Sequential
             else None);
          s = initial W a
      in case SequenceFolder of
           None \<Rightarrow> (Inl UnboundLocalError, s)
         | Some folder \<Rightarrow>
             if batch_size a \<le> 0 then (Inl ValueError, s)
             else
             (let train_loader = train_set W folder;
                  val_loader = val_set W folder;
                  epoch_size' = (if epoch_size a = 0 then int (num_batches train_loader)
                                 else epoch_size a);
                  optimizer = Adam (combined_parameters [disp_net s, pose_exp_net s])
              in epochs_loop W a train_loader val_loader optimizer epoch_size'
                   [0..<nat (epochs a)] (start_logs a s)))"

subsection \<open>Predicates and examples used below\<close>

text \<open>What \<^verbatim>\<open>validate\<close> leaves alone: everything but the output writers and the modes.\<close>

definition validation_frame :: "'v state \<Rightarrow> 'v state \<Rightarrow> bool" where
  "validation_frame s s' \<longleftrightarrow>
     best_photo_loss s' = best_photo_loss s \<and> n_iter s' = n_iter s \<and>
     tensors s' = tensors s \<and>
     parameters (disp_net s') = parameters (disp_net s) \<and>
     parameters (pose_exp_net s') = parameters (pose_exp_net s) \<and>
     adam_steps s' = adam_steps s \<and> files s' = files s \<and>
     train_writer s' = train_writer s \<and>
     valid_writer s' = valid_writer s \<and> checkpoints s' = checkpoints s \<and>
     length (output_writers s') = length (output_writers s)"

text \<open>What \<^verbatim>\<open>train\<close> leaves alone.\<close>

definition training_frame :: "'v state \<Rightarrow> 'v state \<Rightarrow> bool" where
  "training_frame s s' \<longleftrightarrow>
     best_photo_loss s' = best_photo_loss s \<and>
     parameters (disp_net s') = parameters (disp_net s) \<and>
     parameters (pose_exp_net s') = parameters (pose_exp_net s) \<and>
     valid_writer s' = valid_writer s \<and>
     checkpoints s' = checkpoints s \<and> output_writers s' = output_writers s"

text \<open>The data rows of a file.\<close>

fun data_rows :: "csv_row list \<Rightarrow> real list list" where
  "data_rows [] = []"
| "data_rows (Header names # rows) = data_rows rows"
| "data_rows (Values xs # rows) = xs # data_rows rows"

text \<open>
  The file \<^verbatim>\<open>args.log_full\<close> has one data row for each optimizer step, and each data row
  is the total loss of a step, computed from the three terms that follow it.
\<close>

definition log_full_consistent :: "('v, 'b) world \<Rightarrow> args \<Rightarrow> 'v state \<Rightarrow> bool" where
  "log_full_consistent W a s \<longleftrightarrow>
     length (data_rows (files s (log_full a))) = adam_steps s \<and>
     list_all (\<lambda>r. \<exists>p e m. r = [weighted_loss W a p e m, p, e, m])
       (data_rows (files s (log_full a)))"

text \<open>
  A small world to run the script in: a batch is the pair of the pass and its index in the
  pass; the photometric loss of a batch is a function of the pass; the two networks share
  tensor 1; every batch has two reference images and two pose rows (batch size 1, sequence
  length 3); an optimizer step adds 1 to a tensor; the arithmetic of the losses is exact.
\<close>

definition example_world :: "nat \<Rightarrow> nat \<Rightarrow> (nat \<Rightarrow> real) \<Rightarrow> (int, nat \<times> nat) world" where
  "example_world n_train n_val photo =
     \<lparr>train_set = (\<lambda>_. \<lparr>num_batches = n_train, batch_at = (\<lambda>pass i. (pass, i))\<rparr>),
      val_set = (\<lambda>_. \<lparr>num_batches = n_val, batch_at = (\<lambda>pass i. (pass, i))\<rparr>),
      disp_net_parameters = [0, 1],
      pose_exp_net_parameters = [1, 2],
      init_weights = (\<lambda>_. 0),
      loss_terms = (\<lambda>t d p b. (photo (fst b), 1, 5)),
      pose_rows = (\<lambda>t b. [zero_pose\<lparr>tx := real (snd b)\<rparr>, zero_pose\<lparr>tx := real (snd b) + 1 / 2\<rparr>]),
      num_scales = 1,
      num_refs = (\<lambda>_. 2),
      adam_update = (\<lambda>t b k v. v + 1),
      scalar_mul = (\<lambda>w x. w * x),
      tensor_add = (\<lambda>x y. x + y)\<rparr>"

definition example_args :: args where
  "example_args =
     \<lparr>dataset_format = ''sequential'', epochs = 2, epoch_size = 3, batch_size = 1,
      print_freq = 10, photo_loss_weight = 1, mask_loss_weight = 1,
      smooth_loss_weight = 1 / 5, sequence_length = 3, log_output = False,
      log_summary = ''progress_log_summary.csv'', log_full = ''progress_log_full.csv''\<rparr>"

text \<open>
  The worlds of the examples: ten training batches for each epoch; validation photometric
  losses -1/2 and then -7/10; validation photometric losses 4/5, 3/5, 7/10 and then 1/2.
\<close>

definition truncation_world :: "(int, nat \<times> nat) world" where
  "truncation_world = example_world 10 1 (\<lambda>_. 1)"

definition negative_world :: "(int, nat \<times> nat) world" where
  "negative_world = example_world 1 1 (\<lambda>pass. if pass = 0 then - 1 / 2 else - 7 / 10)"

definition scenario_world :: "(int, nat \<times> nat) world" where
  "scenario_world = example_world 1 1
     (\<lambda>pass. if pass = 0 then 4 / 5 else if pass = 1 then 3 / 5
             else if pass = 2 then 7 / 10 else 1 / 2)"





text \<open>
  The second epoch of the run in \<open>scenario_world\<close>: the state after epoch 0, after the
  training of epoch 1, and after its validation.
\<close>

definition scenario_after_epoch_0 :: "int state" where
  "scenario_after_epoch_0 =
     snd (epochs_loop scenario_world example_args (train_set scenario_world Sequential)
            (val_set scenario_world Sequential) [0, 1, 2] 3 [0..<1]
            (start_logs example_args (initial scenario_world example_args)))"

definition scenario_trained_1 :: "int state" where
  "scenario_trained_1 =
     snd (train scenario_world example_args (iterate (train_set scenario_world Sequential) 1)
            [0, 1, 2] 3 scenario_after_epoch_0)"

definition scenario_validated_1 :: "int state" where
  "scenario_validated_1 =
     snd (validate scenario_world example_args (iterate (val_set scenario_world Sequential) 1)
            1 scenario_trained_1)"

text \<open>The second epoch of the run in \<open>negative_world\<close>, in the same way.\<close>

definition negative_after_epoch_0 :: "int state" where
  "negative_after_epoch_0 =
     snd (epochs_loop negative_world example_args (train_set negative_world Sequential)
            (val_set negative_world Sequential) [0, 1, 2] 3 [0..<1]
            (start_logs example_args (initial negative_world example_args)))"

definition negative_trained_1 :: "int state" where
  "negative_trained_1 =
     snd (train negative_world example_args (iterate (train_set negative_world Sequential) 1)
            [0, 1, 2] 3 negative_after_epoch_0)"

definition negative_validated_1 :: "int state" where
  "negative_validated_1 =
     snd (validate negative_world example_args (iterate (val_set negative_world Sequential) 1)
            1 negative_trained_1)"

text \<open>The histograms among the events of a writer.\<close>

fun is_histogram :: "event \<Rightarrow> bool" where
  "is_histogram (Histogram tag xs n) = True"
| "is_histogram (Scalar tag x n) = False"
| "is_histogram (Image tag ks n) = False"

text \<open>
  The loop of \<^verbatim>\<open>train\<close>, entered at index \<open>n\<close> with \<open>len\<close> batches left and no error
  on the way: the rounds it runs, and the increments of \<^verbatim>\<open>n_iter\<close> it makes. The loop is
  left by \<^verbatim>\<open>break\<close> when \<open>epoch_size - n \<le> len\<close>, and then the last round makes no
  increment.
\<close>

definition rounds_run :: "int \<Rightarrow> nat \<Rightarrow> nat \<Rightarrow> nat" where
  "rounds_run epoch_size' n len =
     (if len = 0 then 0
      else if epoch_size' - int n \<le> int len then nat (max 1 (epoch_size' - int n))
      else len)"

definition increments_made :: "int \<Rightarrow> nat \<Rightarrow> nat \<Rightarrow> nat" where
  "increments_made epoch_size' n len =
     (if len = 0 then 0
      else if epoch_size' - int n \<le> int len then nat (max 1 (epoch_size' - int n)) - 1
      else len)"

section \<open>Properties\<close>

subsection \<open>The combined optimizer\<close>

lemma fold_parameters_union:
  "fold (\<lambda>net' ps. ps \<union> set (parameters net')) nets A = A \<union> (\<Union>n\<in>set nets. set (parameters n))"
  by (induction nets arbitrary: A) auto

lemma combined_parameters_eq:
  "combined_parameters nets = (\<Union>n\<in>set nets. set (parameters n))"
  by (simp add: combined_parameters_def fold_parameters_union)

lemma finite_combined_parameters: "finite (combined_parameters nets)"
  by (simp add: combined_parameters_eq)

lemma fold_update_distinct:
  "distinct ks \<Longrightarrow>
   fold (\<lambda>k t'. t'(k := f k (t' k))) ks t k' = (if k' \<in> set ks then f k' (t k') else t k')"
  by (induction ks arbitrary: t) auto

text \<open>
  C7. For every list of networks, the set built by lines 154 to 156 is the union of the
  networks' parameter tensors; the list Adam keeps has each of them once; and one optimizer
  step gives every tensor of every network the result of one update of its old value, and
  leaves every other tensor as it was.
\<close>

theorem combined_optimizer_union:
  "combined_parameters nets = (\<Union>n\<in>set nets. set (parameters n)) \<and>
   distinct (Adam (combined_parameters nets)) \<and>
   set (Adam (combined_parameters nets)) = (\<Union>n\<in>set nets. set (parameters n)) \<and>
   (\<forall>k. optimizer_step W b (Adam (combined_parameters nets)) t k =
        (if k \<in> (\<Union>n\<in>set nets. set (parameters n)) then adam_update W t b k (t k) else t k))"
proof -
  have u: "combined_parameters nets = (\<Union>n\<in>set nets. set (parameters n))"
    by (rule combined_parameters_eq)
  have d: "distinct (Adam (combined_parameters nets))"
    by (simp add: Adam_def)
  have s: "set (Adam (combined_parameters nets)) = (\<Union>n\<in>set nets. set (parameters n))"
    using finite_combined_parameters [of nets] by (simp add: Adam_def u)
  have "optimizer_step W b (Adam (combined_parameters nets)) t k =
        (if k \<in> (\<Union>n\<in>set nets. set (parameters n)) then adam_update W t b k (t k) else t k)" for k
    unfolding optimizer_step_def using fold_update_distinct [OF d, of "adam_update W t b" t k] s
    by simp
  with u d s show ?thesis by blast
qed

text \<open>The two networks of the example share tensor 1; it is updated once.\<close>

theorem combined_optimizer_union_witness:
  "Adam (combined_parameters
      [\<lparr>parameters = [0, 1], training = True\<rparr>, \<lparr>parameters = [1, 2], training = True\<rparr>])
     = [0, 1, 2] \<and>
   optimizer_step (example_world 1 1 (\<lambda>_. 0)) (0, 0)
     (Adam (combined_parameters
        [\<lparr>parameters = [0, 1], training = True\<rparr>, \<lparr>parameters = [1, 2], training = True\<rparr>]))
     (\<lambda>_. 7) 1 = 8"
proof -
  have l: "Adam (combined_parameters
      [\<lparr>parameters = [0, 1], training = True\<rparr>, \<lparr>parameters = [1, 2], training = True\<rparr>])
     = [0, 1, 2]"
    by code_simp
  show ?thesis
    using l combined_optimizer_union
      [of "[\<lparr>parameters = [0, 1], training = True\<rparr>, \<lparr>parameters = [1, 2], training = True\<rparr>]"
          "example_world 1 1 (\<lambda>_. 0)" "(0, 0)" "\<lambda>_. 7"]
    by (simp add: example_world_def)
qed

subsection \<open>The dataset format\<close>

text \<open>
  C9. A dataset format other than \<^verbatim>\<open>stacked\<close> and \<^verbatim>\<open>sequential\<close> ends \<^verbatim>\<open>main\<close> with an
  error before the loop over the epochs: no optimizer step was made, the full log file has
  no row, the step counter is 0 and the training writer received nothing.
\<close>

theorem main_invalid_dataset_format:
  assumes "dataset_format a \<noteq> ''stacked''" and "dataset_format a \<noteq> ''sequential''"
  shows "fst (main W a) = Inl UnboundLocalError \<and> adam_steps (snd (main W a)) = 0 \<and>
         files (snd (main W a)) (log_full a) = [] \<and> n_iter (snd (main W a)) = 0 \<and>
         train_writer (snd (main W a)) = []"
  using assms by (simp add: main_def initial_def)

theorem main_invalid_dataset_format_witness:
  "fst (main (example_world 10 1 (\<lambda>_. 1)) (example_args\<lparr>dataset_format := ''kitti''\<rparr>))
     = Inl UnboundLocalError \<and>
   adam_steps (snd (main (example_world 10 1 (\<lambda>_. 1))
     (example_args\<lparr>dataset_format := ''kitti''\<rparr>))) = 0"
  using main_invalid_dataset_format
    [of "example_args\<lparr>dataset_format := ''kitti''\<rparr>" "example_world 10 1 (\<lambda>_. 1)"]
  by simp

subsection \<open>What validation leaves unchanged\<close>

lemma validation_frame_refl: "validation_frame s s"
  by (simp add: validation_frame_def)

lemma validation_frame_trans:
  "validation_frame s s' \<Longrightarrow> validation_frame s' s'' \<Longrightarrow> validation_frame s s''"
  by (simp add: validation_frame_def)

lemma validate_batch_state:
  "snd (validate_batch W a len_val_loader log_outputs epoch i b L s)
     = log_batch_output W log_outputs epoch i b s"
  by (simp add: validate_batch_def Let_def split: prod.splits sum.splits)

lemma validate_batch_frame:
  "validation_frame s (snd (validate_batch W a len_val_loader log_outputs epoch i b L s))"
  by (simp add: validate_batch_state log_batch_output_def validation_frame_def)

lemma validate_loop_frame:
  "validation_frame s (snd (validate_loop W a len_val_loader log_outputs epoch xs L s))"
proof (induction xs arbitrary: L s)
  case Nil
  show ?case by (simp add: validation_frame_refl)
next
  case (Cons x xs)
  obtain i b where x: "x = (i, b)" by (cases x)
  obtain r s' where vb: "validate_batch W a len_val_loader log_outputs epoch i b L s = (r, s')"
    by (cases "validate_batch W a len_val_loader log_outputs epoch i b L s")
  have f: "validation_frame s s'"
    using validate_batch_frame [of s W a len_val_loader log_outputs epoch i b L] vb by simp
  show ?case
  proof (cases r)
    case (Inl e)
    then show ?thesis using x vb f by simp
  next
    case (Inr L')
    have "validation_frame s' (snd (validate_loop W a len_val_loader log_outputs epoch xs L' s'))"
      by (rule Cons.IH)
    with f have "validation_frame s (snd (validate_loop W a len_val_loader log_outputs epoch xs L' s'))"
      by (rule validation_frame_trans)
    then show ?thesis using x vb Inr by simp
  qed
qed

lemma validate_return_frame:
  "validation_frame s (snd (validate_return log_outputs epoch L s))"
  by (simp add: validate_return_def validation_frame_def Let_def split: sum.splits)

text \<open>\<^verbatim>\<open>validate\<close> after a successful allocation of the pose buffer.\<close>

lemma validate_unfold:
  assumes "np_zeros ((int (length val_loader) - 1) * batch_size a * (sequence_length a - 1))
           = Inr zeros"
  shows "validate W a val_loader epoch s =
     (case validate_loop W a (length val_loader) (0 < length (output_writers s)) epoch
              (enumerate 0 val_loader)
              \<lparr>poses = zeros, losses = reset, losses1 = reset, losses2 = reset\<rparr>
              (s\<lparr>disp_net := (disp_net s)\<lparr>training := False\<rparr>,
                 pose_exp_net := (pose_exp_net s)\<lparr>training := False\<rparr>\<rparr>) of
        (Inl e, s') \<Rightarrow> (Inl e, s')
      | (Inr L, s') \<Rightarrow> validate_return (0 < length (output_writers s)) epoch L s')"
  unfolding validate_def Let_def assms by simp

lemma validate_frame: "validation_frame s (snd (validate W a val_loader epoch s))"
proof (cases "np_zeros ((int (length val_loader) - 1) * batch_size a * (sequence_length a - 1))")
  case (Inl e)
  then show ?thesis by (simp add: validate_def validation_frame_refl)
next
  case (Inr zeros)
  define s1 where "s1 = s\<lparr>disp_net := (disp_net s)\<lparr>training := False\<rparr>,
                 pose_exp_net := (pose_exp_net s)\<lparr>training := False\<rparr>\<rparr>"
  define lo where "lo = (0 < length (output_writers s))"
  define lp where "lp = validate_loop W a (length val_loader) lo epoch
     (enumerate 0 val_loader) \<lparr>poses = zeros, losses = reset, losses1 = reset, losses2 = reset\<rparr> s1"
  have v: "validate W a val_loader epoch s =
     (case lp of (Inl e, s') \<Rightarrow> (Inl e, s') | (Inr L, s') \<Rightarrow> validate_return lo epoch L s')"
    unfolding lp_def s1_def lo_def using Inr by (rule validate_unfold)
  have f1: "validation_frame s s1"
    by (simp add: s1_def validation_frame_def)
  have "validation_frame s1 (snd lp)"
    unfolding lp_def by (rule validate_loop_frame)
  with f1 have f2: "validation_frame s (snd lp)"
    by (rule validation_frame_trans)
  show ?thesis
  proof (cases lp)
    case (Pair r s')
    show ?thesis
    proof (cases r)
      case (Inl e)
      then show ?thesis using v Pair f2 by simp
    next
      case (Inr L)
      have "validation_frame s' (snd (validate_return lo epoch L s'))"
        by (rule validate_return_frame)
      with f2 Pair have "validation_frame s (snd (validate_return lo epoch L s'))"
        using validation_frame_trans by fastforce
      then show ?thesis using v Pair Inr by simp
    qed
  qed
qed

text \<open>
  C8. \<^verbatim>\<open>validate\<close> changes no parameter tensor: the store after it is the store before
  it, both networks have the parameter tensors they had, and no optimizer step was made.
\<close>

theorem validate_keeps_parameters:
  "tensors (snd (validate W a val_loader epoch s)) = tensors s \<and>
   parameters (disp_net (snd (validate W a val_loader epoch s))) = parameters (disp_net s) \<and>
   parameters (pose_exp_net (snd (validate W a val_loader epoch s)))
     = parameters (pose_exp_net s) \<and>
   adam_steps (snd (validate W a val_loader epoch s)) = adam_steps s"
  using validate_frame [of s W a val_loader epoch] by (simp add: validation_frame_def)

theorem validate_keeps_parameters_witness:
  "tensors (snd (validate (example_world 2 3 (\<lambda>_. 1)) (example_args\<lparr>log_output := True\<rparr>)
      [(0, 0), (0, 1), (0, 2)] 0
      (initial (example_world 2 3 (\<lambda>_. 1)) (example_args\<lparr>log_output := True\<rparr>)))) 1 = 0 \<and>
   fst (validate (example_world 2 3 (\<lambda>_. 1)) (example_args\<lparr>log_output := True\<rparr>)
      [(0, 0), (0, 1), (0, 2)] 0
      (initial (example_world 2 3 (\<lambda>_. 1)) (example_args\<lparr>log_output := True\<rparr>)))
     = Inr (1, 1, 3)"
proof -
  have r: "fst (validate (example_world 2 3 (\<lambda>_. 1)) (example_args\<lparr>log_output := True\<rparr>)
      [(0, 0), (0, 1), (0, 2)] 0
      (initial (example_world 2 3 (\<lambda>_. 1)) (example_args\<lparr>log_output := True\<rparr>)))
     = Inr (1, 1, 3)"
    by code_simp
  show ?thesis
    using r validate_keeps_parameters
      [of "example_world 2 3 (\<lambda>_. 1)" "example_args\<lparr>log_output := True\<rparr>"
          "[(0, 0), (0, 1), (0, 2)]" 0
          "initial (example_world 2 3 (\<lambda>_. 1)) (example_args\<lparr>log_output := True\<rparr>)"]
    by (simp add: initial_def example_world_def)
qed

subsection \<open>Images during training\<close>

text \<open>
  C4, as amended. The stride is the constant 200 of line 249. For a batch with at least
  two reference images, one round of the training loop writes to the training writer its
  four scalars and then, exactly when \<open>n_iter mod 200 = 0\<close> and \<^verbatim>\<open>--log-output\<close> is
  set, the three input images, for each scale the disparity and the depth, and for each
  scale and each reference image the warped image, the residual and the mask; otherwise no
  image.
\<close>

theorem train_images_gate:
  assumes "2 \<le> num_refs W b"
  shows "train_writer (snd (train_batch W a optimizer i b m s)) =
     train_writer s @
     (case loss_terms W (tensors s) (disp_net s) (pose_exp_net s) b of
        (loss_1, loss_2, loss_3) \<Rightarrow>
          [Scalar ''photometric_error'' loss_1 (n_iter s),
           Scalar ''explanability_loss'' loss_2 (n_iter s),
           Scalar ''disparity_smoothness_loss'' loss_3 (n_iter s),
           Scalar ''total_loss'' (weighted_loss W a loss_1 loss_2 loss_3) (n_iter s)]) @
     (if n_iter s mod 200 = 0 \<and> log_output a then
        [Image ''train Input'' [] (n_iter s - 1), Image ''train Input'' [] (n_iter s),
         Image ''train Input'' [] (n_iter s + 1)] @
        concat (map (\<lambda>k.
          [Image ''train Dispnet Output {}'' [k] (n_iter s),
           Image ''train Depth Output Normalized {}'' [k] (n_iter s)] @
          concat (map (\<lambda>j.
            [Image ''train Warped Outputs {} {}'' [k, j] (n_iter s),
             Image ''train Diff Outputs {} {}'' [k, j] (n_iter s),
             Image ''train Exp mask Outputs {} {}'' [k, j] (n_iter s)]) [0..<num_refs W b]))
          [0..<num_scales W])
      else [])"
  using assms
  by (simp add: train_batch_def train_log_output_def Let_def split: prod.splits)

theorem train_images_gate_witness:
  "2 \<le> num_refs (example_world 2 3 (\<lambda>_. 1)) (0, 0) \<and>
   train_writer (snd (train_batch (example_world 2 3 (\<lambda>_. 1))
      (example_args\<lparr>log_output := True\<rparr>) [0, 1, 2] 0 (0, 0) reset
      (initial (example_world 2 3 (\<lambda>_. 1)) (example_args\<lparr>log_output := True\<rparr>)))) =
     [Scalar ''photometric_error'' 1 0, Scalar ''explanability_loss'' 1 0,
      Scalar ''disparity_smoothness_loss'' 5 0, Scalar ''total_loss'' 3 0,
      Image ''train Input'' [] (- 1), Image ''train Input'' [] 0, Image ''train Input'' [] 1,
      Image ''train Dispnet Output {}'' [0] 0,
      Image ''train Depth Output Normalized {}'' [0] 0,
      Image ''train Warped Outputs {} {}'' [0, 0] 0,
      Image ''train Diff Outputs {} {}'' [0, 0] 0,
      Image ''train Exp mask Outputs {} {}'' [0, 0] 0,
      Image ''train Warped Outputs {} {}'' [0, 1] 0,
      Image ''train Diff Outputs {} {}'' [0, 1] 0,
      Image ''train Exp mask Outputs {} {}'' [0, 1] 0]"
proof -
  have h: "2 \<le> num_refs (example_world 2 3 (\<lambda>_. 1)) (0, 0)"
    by (simp add: example_world_def)
  have "train_writer (snd (train_batch (example_world 2 3 (\<lambda>_. 1))
      (example_args\<lparr>log_output := True\<rparr>) [0, 1, 2] 0 (0, 0) reset
      (initial (example_world 2 3 (\<lambda>_. 1)) (example_args\<lparr>log_output := True\<rparr>)))) =
     [Scalar ''photometric_error'' 1 0, Scalar ''explanability_loss'' 1 0,
      Scalar ''disparity_smoothness_loss'' 5 0, Scalar ''total_loss'' 3 0,
      Image ''train Input'' [] (- 1), Image ''train Input'' [] 0, Image ''train Input'' [] 1,
      Image ''train Dispnet Output {}'' [0] 0,
      Image ''train Depth Output Normalized {}'' [0] 0,
      Image ''train Warped Outputs {} {}'' [0, 0] 0,
      Image ''train Diff Outputs {} {}'' [0, 0] 0,
      Image ''train Exp mask Outputs {} {}'' [0, 0] 0,
      Image ''train Warped Outputs {} {}'' [0, 1] 0,
      Image ''train Diff Outputs {} {}'' [0, 1] 0,
      Image ''train Exp mask Outputs {} {}'' [0, 1] 0]"
    by code_simp
  with h train_images_gate [OF h, of "example_args\<lparr>log_output := True\<rparr>" "[0, 1, 2]" 0 reset
      "initial (example_world 2 3 (\<lambda>_. 1)) (example_args\<lparr>log_output := True\<rparr>)"]
  show ?thesis by blast
qed

text \<open>
  The claim as stated, for every stride from 1 on, fails for stride 3: at step 3 with
  \<^verbatim>\<open>--log-output\<close> the round writes its four scalars and no image.
\<close>

theorem train_images_stride_counterexample:
  "train_writer (snd (train_batch (example_world 4 3 (\<lambda>_. 1))
      (example_args\<lparr>log_output := True\<rparr>) [0, 1, 2] 3 (0, 3) reset
      ((initial (example_world 4 3 (\<lambda>_. 1)) (example_args\<lparr>log_output := True\<rparr>))
         \<lparr>n_iter := 3\<rparr>))) =
     [Scalar ''photometric_error'' 1 3, Scalar ''explanability_loss'' 1 3,
      Scalar ''disparity_smoothness_loss'' 5 3, Scalar ''total_loss'' 3 3] \<and>
   (3::int) mod 3 = 0 \<and> (1::int) \<le> 3 \<and> log_output (example_args\<lparr>log_output := True\<rparr>)"
  by code_simp

subsection \<open>The division of line 336\<close>

text \<open>
  The test \<^verbatim>\<open>i/100 < len(output_writers)\<close> divides floats; it holds exactly when the
  integer quotient is below the number of writers.
\<close>

lemma float_division_bound:
  "(real i / 100 < real n) = (i div 100 < n)"
proof -
  have "(real i / 100 < real n) = (real i < real (n * 100))"
    by (simp add: divide_less_eq)
  also have "\<dots> = (i < n * 100)"
    by (rule of_nat_less_iff)
  also have "\<dots> = (i div 100 < n)"
    by (simp add: div_less_iff_less_mult)
  finally show ?thesis .
qed

subsection \<open>What training leaves unchanged, and the full log\<close>

lemma training_frame_trans:
  "training_frame s s' \<Longrightarrow> training_frame s' s'' \<Longrightarrow> training_frame s s''"
  by (simp add: training_frame_def)

lemma train_batch_frame:
  "training_frame s (snd (train_batch W a optimizer i b m s))"
  by (simp add: train_batch_def training_frame_def Let_def split: prod.splits sum.splits)

lemma data_rows_append: "data_rows (xs @ ys) = data_rows xs @ data_rows ys"
  by (induction xs rule: data_rows.induct) simp_all

lemma train_batch_log:
  "log_full_consistent W a s \<Longrightarrow> log_full_consistent W a (snd (train_batch W a optimizer i b m s))"
  by (auto simp add: train_batch_def log_full_consistent_def Let_def data_rows_append
        split: prod.splits sum.splits)

lemma train_loop_frame_log:
  "training_frame s (snd (train_loop W a optimizer E xs m s)) \<and>
   (log_full_consistent W a s \<longrightarrow> log_full_consistent W a (snd (train_loop W a optimizer E xs m s)))"
proof (induction xs arbitrary: m s)
  case Nil
  show ?case by (simp add: training_frame_def)
next
  case (Cons x xs)
  obtain i b where x: "x = (i, b)" by (cases x)
  obtain r s' where tb: "train_batch W a optimizer i b m s = (r, s')"
    by (cases "train_batch W a optimizer i b m s")
  have f: "training_frame s s'"
    using train_batch_frame [of s W a optimizer i b m] tb by simp
  have l: "log_full_consistent W a s \<longrightarrow> log_full_consistent W a s'"
    using train_batch_log [of W a s optimizer i b m] tb by simp
  show ?case
  proof (cases r)
    case (Inl e)
    then show ?thesis using x tb f l by simp
  next
    case (Inr m')
    define s'' where "s'' = s'\<lparr>n_iter := n_iter s' + 1\<rparr>"
    have f': "training_frame s s''" using f by (simp add: s''_def training_frame_def)
    have l': "log_full_consistent W a s \<longrightarrow> log_full_consistent W a s''"
      using l by (simp add: s''_def log_full_consistent_def)
    have ih: "training_frame s'' (snd (train_loop W a optimizer E xs m' s'')) \<and>
      (log_full_consistent W a s'' \<longrightarrow>
         log_full_consistent W a (snd (train_loop W a optimizer E xs m' s'')))"
      by (rule Cons.IH)
    show ?thesis
    proof (cases "int i \<ge> E - 1")
      case True
      then show ?thesis using x tb Inr f l by simp
    next
      case False
      then have "snd (train_loop W a optimizer E (x # xs) m s) =
                 snd (train_loop W a optimizer E xs m' s'')"
        using x tb Inr by (simp add: s''_def)
      then show ?thesis using ih f' l' training_frame_trans by metis
    qed
  qed
qed

lemma train_frame_log:
  "training_frame s (snd (train W a train_loader optimizer E s)) \<and>
   (log_full_consistent W a s \<longrightarrow> log_full_consistent W a (snd (train W a train_loader optimizer E s)))"
proof -
  define s1 where "s1 = s\<lparr>disp_net := (disp_net s)\<lparr>training := True\<rparr>,
                 pose_exp_net := (pose_exp_net s)\<lparr>training := True\<rparr>\<rparr>"
  define lp where "lp = train_loop W a optimizer E (enumerate 0 train_loader) reset s1"
  have f1: "training_frame s s1" by (simp add: s1_def training_frame_def)
  have l1: "log_full_consistent W a s \<longrightarrow> log_full_consistent W a s1"
    by (simp add: s1_def log_full_consistent_def)
  have lpf: "training_frame s1 (snd lp) \<and>
      (log_full_consistent W a s1 \<longrightarrow> log_full_consistent W a (snd lp))"
    unfolding lp_def by (rule train_loop_frame_log)
  have "snd (train W a train_loader optimizer E s) = snd lp"
    unfolding train_def Let_def lp_def s1_def by (simp split: prod.splits sum.splits)
  then show ?thesis using f1 l1 lpf training_frame_trans by metis
qed


















subsection \<open>The best photometric loss over a run\<close>

lemma validate_batch_losses1:
  assumes "validate_batch W a len_val_loader log_outputs epoch i b L s = (Inr L', s')"
  shows "losses1 L' =
     update (losses1 L) (fst (loss_terms W (tensors s) (disp_net s) (pose_exp_net s) b)) 1"
  using assms
  by (cases "loss_terms W (tensors s) (disp_net s) (pose_exp_net s) b")
     (auto simp add: validate_batch_def Let_def split: sum.splits if_splits)

lemma validate_loop_nonneg:
  assumes "\<And>t d p b. 0 \<le> fst (loss_terms W t d p b)"
    and "validate_loop W a len_val_loader log_outputs epoch xs L s = (Inr L', s')"
    and "0 \<le> meter_sum (losses1 L)" and "0 \<le> meter_count (losses1 L)"
  shows "0 \<le> meter_sum (losses1 L') \<and> 0 \<le> meter_count (losses1 L')"
  using assms(2-)
proof (induction xs arbitrary: L s)
  case Nil
  then show ?case by simp
next
  case (Cons x xs)
  obtain i b where x: "x = (i, b)" by (cases x)
  obtain r s1 where vb: "validate_batch W a len_val_loader log_outputs epoch i b L s = (r, s1)"
    by (cases "validate_batch W a len_val_loader log_outputs epoch i b L s")
  from Cons.prems(1) x vb obtain L1 where r: "r = Inr L1"
    by (cases r) auto
  have rest: "validate_loop W a len_val_loader log_outputs epoch xs L1 s1 = (Inr L', s')"
    using Cons.prems(1) x vb r by simp
  have l1: "losses1 L1 =
     update (losses1 L) (fst (loss_terms W (tensors s) (disp_net s) (pose_exp_net s) b)) 1"
    using vb r validate_batch_losses1 [of W a len_val_loader log_outputs epoch i b L s L1 s1]
    by simp
  have "0 \<le> meter_sum (losses1 L1)" "0 \<le> meter_count (losses1 L1)"
    using Cons.prems(2,3) assms(1) [of "tensors s" "disp_net s" "pose_exp_net s" b]
    by (simp_all add: l1 update_def)
  then show ?case using Cons.IH [OF rest] by simp
qed

lemma avg_nonneg:
  "avg m = Inr v \<Longrightarrow> 0 \<le> meter_sum m \<Longrightarrow> 0 \<le> meter_count m \<Longrightarrow> 0 \<le> v"
  by (auto simp add: avg_def split: if_splits)

lemma validate_nonneg:
  assumes "\<And>t d p b. 0 \<le> fst (loss_terms W t d p b)"
    and "validate W a val_loader epoch s = (Inr (vp, ve, vt), s')"
  shows "0 \<le> vp"
proof -
  obtain zeros where z:
    "np_zeros ((int (length val_loader) - 1) * batch_size a * (sequence_length a - 1)) = Inr zeros"
    using assms(2)
    by (cases "np_zeros ((int (length val_loader) - 1) * batch_size a * (sequence_length a - 1))")
       (auto simp add: validate_def)
  define s1 where "s1 = s\<lparr>disp_net := (disp_net s)\<lparr>training := False\<rparr>,
                 pose_exp_net := (pose_exp_net s)\<lparr>training := False\<rparr>\<rparr>"
  define lo where "lo = (0 < length (output_writers s))"
  define L0 where "L0 = \<lparr>poses = zeros, losses = reset, losses1 = reset, losses2 = reset\<rparr>"
  define lp where "lp = validate_loop W a (length val_loader) lo epoch (enumerate 0 val_loader) L0 s1"
  have v: "validate W a val_loader epoch s =
     (case lp of (Inl e, s') \<Rightarrow> (Inl e, s') | (Inr L, s') \<Rightarrow> validate_return lo epoch L s')"
    unfolding lp_def s1_def lo_def L0_def using z by (rule validate_unfold)
  obtain r s2 where lp2: "lp = (r, s2)" by (cases lp)
  from v assms(2) lp2 obtain L where r: "r = Inr L"
    by (cases r) auto
  have ret: "validate_return lo epoch L s2 = (Inr (vp, ve, vt), s')"
    using v assms(2) lp2 r by simp
  have "0 \<le> meter_sum (losses1 L) \<and> 0 \<le> meter_count (losses1 L)"
    using validate_loop_nonneg [OF assms(1), of a "length val_loader" lo epoch
        "enumerate 0 val_loader" L0 s1 L s2] lp2 r
    by (simp add: lp_def L0_def reset_def)
  moreover have "avg (losses1 L) = Inr vp"
    using ret by (auto simp add: validate_return_def Let_def split: sum.splits)
  ultimately show ?thesis using avg_nonneg by blast
qed

lemma checkpoint_best:
  "best_photo_loss (checkpoint a epoch train_loss vp ve vt s) =
     (if best_photo_loss s < 0 then vp else min vp (best_photo_loss s)) \<and>
   checkpoints (checkpoint a epoch train_loss vp ve vt s) =
     checkpoints s @ [(int epoch + 1, \<not> best_photo_loss s < 0 \<and> vp < best_photo_loss s)]"
  by (simp add: checkpoint_def Let_def)

lemma epoch_body_cases:
  assumes "epoch_body W a trl vll optimizer E epoch s = (Inr u, s')"
  obtains train_loss s1 vp ve vt s2 where
    "train W a (iterate trl epoch) optimizer E s = (Inr train_loss, s1)"
    "validate W a (iterate vll epoch) epoch s1 = (Inr (vp, ve, vt), s2)"
    "s' = checkpoint a epoch train_loss vp ve vt s2"
proof -
  obtain r1 s1 where t: "train W a (iterate trl epoch) optimizer E s = (r1, s1)"
    by (cases "train W a (iterate trl epoch) optimizer E s")
  obtain r2 s2 where v: "validate W a (iterate vll epoch) epoch s1 = (r2, s2)"
    by (cases "validate W a (iterate vll epoch) epoch s1")
  from assms t obtain train_loss where r1: "r1 = Inr train_loss"
    by (cases r1) (auto simp add: epoch_body_def)
  from assms t v r1 obtain vp ve vt where r2: "r2 = Inr (vp, ve, vt)"
    by (cases r2) (auto simp add: epoch_body_def)
  have "s' = checkpoint a epoch train_loss vp ve vt s2"
    using assms t v r1 r2 by (simp add: epoch_body_def)
  with t v r1 r2 that show ?thesis by blast
qed

lemma epoch_body_best_nonneg:
  assumes "\<And>t d p b. 0 \<le> fst (loss_terms W t d p b)"
    and "epoch_body W a trl vll optimizer E epoch s = (Inr u, s')"
  shows "0 \<le> best_photo_loss s'"
proof -
  from assms(2) obtain train_loss s1 vp ve vt s2 where
    v: "validate W a (iterate vll epoch) epoch s1 = (Inr (vp, ve, vt), s2)" and
    s': "s' = checkpoint a epoch train_loss vp ve vt s2"
    by (rule epoch_body_cases)
  have "0 \<le> vp" using assms(1) v by (rule validate_nonneg)
  then show ?thesis unfolding s' by (simp add: checkpoint_best)
qed

lemma epochs_loop_best_nonneg:
  assumes "\<And>t d p b. 0 \<le> fst (loss_terms W t d p b)"
    and "epochs_loop W a trl vll optimizer E es s = (Inr u, s')"
    and "es \<noteq> []"
  shows "0 \<le> best_photo_loss s'"
  using assms(2,3)
proof (induction es arbitrary: s)
  case Nil
  then show ?case by simp
next
  case (Cons epoch es)
  obtain r s1 where b: "epoch_body W a trl vll optimizer E epoch s = (r, s1)"
    by (cases "epoch_body W a trl vll optimizer E epoch s")
  from Cons.prems(1) b obtain u1 where r: "r = Inr u1"
    by (cases r) auto
  have rest: "epochs_loop W a trl vll optimizer E es s1 = (Inr u, s')"
    using Cons.prems(1) b r by simp
  have n1: "0 \<le> best_photo_loss s1"
    using assms(1) b r epoch_body_best_nonneg by blast
  show ?case
  proof (cases "es = []")
    case True
    then show ?thesis using rest n1 by simp
  next
    case False
    then show ?thesis using Cons.IH [OF rest] by simp
  qed
qed

text \<open>
  C2, as amended. Let the photometric loss never be negative. If \<open>e\<close> epochs of the
  loop of \<^verbatim>\<open>main\<close> have been completed, and training and validation of epoch \<open>e\<close>
  return, then the round of epoch \<open>e\<close> is completed by the checkpoint; in epoch 0 the
  stored best becomes that epoch's validation photometric loss and the epoch is not flagged;
  in a later epoch the flag is set exactly when the validation photometric loss is
  strictly below the best stored before the epoch, and the stored best becomes the minimum
  of the two.
\<close>

theorem best_photo_loss_rule:
  assumes nonneg: "\<And>t d p b. 0 \<le> fst (loss_terms W t d p b)"
    and run: "epochs_loop W a trl vll optimizer E [0..<e] (start_logs a (initial W a))
                = (Inr (), s)"
    and tr: "train W a (iterate trl e) optimizer E s = (Inr train_loss, s1)"
    and va: "validate W a (iterate vll e) e s1 = (Inr (vp, ve, vt), s2)"
  shows "epoch_body W a trl vll optimizer E e s = (Inr (), checkpoint a e train_loss vp ve vt s2) \<and>
     (e = 0 \<longrightarrow>
        best_photo_loss (checkpoint a e train_loss vp ve vt s2) = vp \<and>
        checkpoints (checkpoint a e train_loss vp ve vt s2) = checkpoints s @ [(1, False)]) \<and>
     (0 < e \<longrightarrow>
        best_photo_loss (checkpoint a e train_loss vp ve vt s2) = min (best_photo_loss s) vp \<and>
        checkpoints (checkpoint a e train_loss vp ve vt s2)
          = checkpoints s @ [(int e + 1, vp < best_photo_loss s)])"
proof -
  have f1: "training_frame s s1"
    using train_frame_log [of s W a "iterate trl e" optimizer E] tr by simp
  have f2: "validation_frame s1 s2"
    using validate_frame [of s1 W a "iterate vll e" e] va by simp
  have b: "best_photo_loss s2 = best_photo_loss s" and c: "checkpoints s2 = checkpoints s"
    using f1 f2 by (simp_all add: training_frame_def validation_frame_def)
  have body: "epoch_body W a trl vll optimizer E e s
      = (Inr (), checkpoint a e train_loss vp ve vt s2)"
    using tr va by (simp add: epoch_body_def)
  have first: "best_photo_loss s = - 1" if "e = 0"
  proof -
    from run that have "s = start_logs a (initial W a)" by simp
    then show ?thesis by (simp add: start_logs_def initial_def)
  qed
  have later: "0 \<le> best_photo_loss s" if "0 < e"
  proof -
    from that have "[0..<e] \<noteq> []" by simp
    with nonneg run show ?thesis by (rule epochs_loop_best_nonneg)
  qed
  show ?thesis
    using body first later by (auto simp add: checkpoint_best b c min.commute)
qed

text \<open>
  The validation photometric losses 4/5 and then 3/5: epoch 1 is flagged and the stored
  best becomes 3/5.
\<close>

theorem best_photo_loss_rule_witness:
  "best_photo_loss (checkpoint example_args 1 (13 / 5) (3 / 5) 1 (13 / 5) scenario_validated_1) = 3 / 5 \<and>
   checkpoints (checkpoint example_args 1 (13 / 5) (3 / 5) 1 (13 / 5) scenario_validated_1)
     = [(1, False), (2, True)]"
proof -
  have nonneg: "\<And>t d p b. 0 \<le> fst (loss_terms scenario_world t d p b)"
    by (simp add: scenario_world_def example_world_def)
  have "fst (epochs_loop scenario_world example_args (train_set scenario_world Sequential)
            (val_set scenario_world Sequential) [0, 1, 2] 3 [0..<1]
            (start_logs example_args (initial scenario_world example_args))) = Inr ()"
    by code_simp
  then have run: "epochs_loop scenario_world example_args (train_set scenario_world Sequential)
            (val_set scenario_world Sequential) [0, 1, 2] 3 [0..<1]
            (start_logs example_args (initial scenario_world example_args))
          = (Inr (), scenario_after_epoch_0)"
    by (simp add: scenario_after_epoch_0_def prod_eq_iff)
  have "fst (train scenario_world example_args (iterate (train_set scenario_world Sequential) 1)
            [0, 1, 2] 3 scenario_after_epoch_0) = Inr (13 / 5)"
    by code_simp
  then have tr: "train scenario_world example_args
       (iterate (train_set scenario_world Sequential) 1) [0, 1, 2] 3 scenario_after_epoch_0
       = (Inr (13 / 5), scenario_trained_1)"
    by (simp add: scenario_trained_1_def prod_eq_iff)
  have "fst (validate scenario_world example_args
       (iterate (val_set scenario_world Sequential) 1) 1 scenario_trained_1)
       = Inr (3 / 5, 1, 13 / 5)"
    by code_simp
  then have va: "validate scenario_world example_args
       (iterate (val_set scenario_world Sequential) 1) 1 scenario_trained_1
       = (Inr (3 / 5, 1, 13 / 5), scenario_validated_1)"
    by (simp add: scenario_validated_1_def prod_eq_iff)
  have b: "best_photo_loss scenario_after_epoch_0 = 4 / 5"
    by code_simp
  have c: "checkpoints scenario_after_epoch_0 = [(1, False)]"
    by code_simp
  show ?thesis
    using best_photo_loss_rule [OF nonneg run tr va] b c by simp
qed

text \<open>
  The claim as stated fails when a validation photometric loss is negative. With the losses
  -1/2 in epoch 0 and -7/10 in epoch 1 (the validation writer receives four times the
  loss), the best stored before epoch 1 is -1/2 and the loss of epoch 1 is strictly below
  it, but epoch 1 is not flagged.
\<close>

theorem best_photo_loss_rule_counterexample:
  "best_photo_loss (snd (main negative_world (example_args\<lparr>epochs := 1\<rparr>))) = - 1 / 2 \<and>
   valid_writer (snd (main negative_world example_args)) =
     [Scalar ''photometric_error'' (- 2) 1, Scalar ''explanability_loss'' 4 1,
      Scalar ''total_loss'' 6 1, Scalar ''photometric_error'' (- 14 / 5) 2,
      Scalar ''explanability_loss'' 4 2, Scalar ''total_loss'' (26 / 5) 2] \<and>
   checkpoints (snd (main negative_world example_args)) = [(1, False), (2, False)] \<and>
   (- 7 / 10 :: real) < - 1 / 2"
  by code_simp

subsection \<open>The sentinel of the best photometric loss\<close>

lemma epochs_loop_append:
  "epochs_loop W a trl vll optimizer E (es @ es') s =
     (case epochs_loop W a trl vll optimizer E es s of
        (Inl e, s') \<Rightarrow> (Inl e, s')
      | (Inr u, s') \<Rightarrow> epochs_loop W a trl vll optimizer E es' s')"
  by (induction es arbitrary: s) (auto split: prod.splits sum.splits)

lemma negative_epoch_0:
  "epochs_loop negative_world example_args (train_set negative_world Sequential)
     (val_set negative_world Sequential) [0, 1, 2] 3 [0..<1]
     (start_logs example_args (initial negative_world example_args))
   = (Inr (), negative_after_epoch_0)"
proof -
  have "fst (epochs_loop negative_world example_args (train_set negative_world Sequential)
     (val_set negative_world Sequential) [0, 1, 2] 3 [0..<1]
     (start_logs example_args (initial negative_world example_args))) = Inr ()"
    by code_simp
  then show ?thesis by (simp add: negative_after_epoch_0_def prod_eq_iff)
qed

lemma negative_train_1:
  "train negative_world example_args (iterate (train_set negative_world Sequential) 1)
     [0, 1, 2] 3 negative_after_epoch_0 = (Inr (13 / 10), negative_trained_1)"
proof -
  have "fst (train negative_world example_args (iterate (train_set negative_world Sequential) 1)
     [0, 1, 2] 3 negative_after_epoch_0) = Inr (13 / 10)"
    by code_simp
  then show ?thesis by (simp add: negative_trained_1_def prod_eq_iff)
qed

lemma negative_validate_1:
  "validate negative_world example_args (iterate (val_set negative_world Sequential) 1) 1
     negative_trained_1 = (Inr (- 7 / 10, 1, 13 / 10), negative_validated_1)"
proof -
  have "fst (validate negative_world example_args
     (iterate (val_set negative_world Sequential) 1) 1 negative_trained_1)
     = Inr (- 7 / 10, 1, 13 / 10)"
    by code_simp
  then show ?thesis by (simp add: negative_validated_1_def prod_eq_iff)
qed

lemma scenario_epoch_0:
  "epochs_loop scenario_world example_args (train_set scenario_world Sequential)
     (val_set scenario_world Sequential) [0, 1, 2] 3 [0..<1]
     (start_logs example_args (initial scenario_world example_args))
   = (Inr (), scenario_after_epoch_0)"
proof -
  have "fst (epochs_loop scenario_world example_args (train_set scenario_world Sequential)
     (val_set scenario_world Sequential) [0, 1, 2] 3 [0..<1]
     (start_logs example_args (initial scenario_world example_args))) = Inr ()"
    by code_simp
  then show ?thesis by (simp add: scenario_after_epoch_0_def prod_eq_iff)
qed

lemma scenario_train_1:
  "train scenario_world example_args (iterate (train_set scenario_world Sequential) 1)
     [0, 1, 2] 3 scenario_after_epoch_0 = (Inr (13 / 5), scenario_trained_1)"
proof -
  have "fst (train scenario_world example_args (iterate (train_set scenario_world Sequential) 1)
     [0, 1, 2] 3 scenario_after_epoch_0) = Inr (13 / 5)"
    by code_simp
  then show ?thesis by (simp add: scenario_trained_1_def prod_eq_iff)
qed

lemma scenario_validate_1:
  "validate scenario_world example_args (iterate (val_set scenario_world Sequential) 1) 1
     scenario_trained_1 = (Inr (3 / 5, 1, 13 / 5), scenario_validated_1)"
proof -
  have "fst (validate scenario_world example_args
     (iterate (val_set scenario_world Sequential) 1) 1 scenario_trained_1)
     = Inr (3 / 5, 1, 13 / 5)"
    by code_simp
  then show ?thesis by (simp add: scenario_validated_1_def prod_eq_iff)
qed

text \<open>
  C10. The global starts at -1, and the test for "no baseline yet" is
  \<open>best_photo_loss < 0\<close>. Let \<open>e\<close> epochs of the loop of \<^verbatim>\<open>main\<close> have been completed, with
  the state \<open>s\<close> at the start of epoch \<open>e\<close>, and let training and validation of epoch \<open>e\<close>
  return, validation with the photometric loss \<open>vp\<close>. Then the loop completes epoch \<open>e\<close>
  with the checkpoint, and:
  \<^item> at the start of epoch 0 the stored best is -1;
  \<^item> if the stored best is negative at the start of the epoch, it is overwritten by \<open>vp\<close>
    and the epoch is not flagged as best, whatever \<open>vp\<close> is;
  \<^item> if it is not negative, the stored best becomes the minimum of itself and \<open>vp\<close>, and
    the epoch is flagged exactly when \<open>vp\<close> is strictly below it;
  \<^item> the best stored for the start of the next epoch is negative exactly when \<open>vp\<close> is
    negative;
  \<^item> if no photometric loss is negative, the stored best is negative at the start of no
    epoch but epoch 0.
\<close>

theorem best_photo_loss_sentinel:
  assumes run: "epochs_loop W a trl vll optimizer E [0..<e] (start_logs a (initial W a))
                = (Inr (), s)"
    and tr: "train W a (iterate trl e) optimizer E s = (Inr train_loss, s1)"
    and va: "validate W a (iterate vll e) e s1 = (Inr (vp, ve, vt), s2)"
  shows "best_photo_loss (initial W a) = - 1 \<and>
     epochs_loop W a trl vll optimizer E [0..<Suc e] (start_logs a (initial W a))
       = (Inr (), checkpoint a e train_loss vp ve vt s2) \<and>
     (e = 0 \<longrightarrow> best_photo_loss s = - 1) \<and>
     (best_photo_loss s < 0 \<longrightarrow>
        best_photo_loss (checkpoint a e train_loss vp ve vt s2) = vp \<and>
        checkpoints (checkpoint a e train_loss vp ve vt s2)
          = checkpoints s @ [(int e + 1, False)]) \<and>
     (0 \<le> best_photo_loss s \<longrightarrow>
        best_photo_loss (checkpoint a e train_loss vp ve vt s2) = min (best_photo_loss s) vp \<and>
        checkpoints (checkpoint a e train_loss vp ve vt s2)
          = checkpoints s @ [(int e + 1, vp < best_photo_loss s)]) \<and>
     (best_photo_loss (checkpoint a e train_loss vp ve vt s2) < 0 \<longleftrightarrow> vp < 0) \<and>
     ((\<forall>t d p b. 0 \<le> fst (loss_terms W t d p b)) \<longrightarrow> 0 < e \<longrightarrow> 0 \<le> best_photo_loss s)"
proof -
  have i: "best_photo_loss (initial W a) = - 1"
    by (simp add: initial_def)
  have f1: "training_frame s s1"
    using train_frame_log [of s W a "iterate trl e" optimizer E] tr by simp
  have f2: "validation_frame s1 s2"
    using validate_frame [of s1 W a "iterate vll e" e] va by simp
  have b: "best_photo_loss s2 = best_photo_loss s" and c: "checkpoints s2 = checkpoints s"
    using f1 f2 by (simp_all add: training_frame_def validation_frame_def)
  have body: "epoch_body W a trl vll optimizer E e s
      = (Inr (), checkpoint a e train_loss vp ve vt s2)"
    using tr va by (simp add: epoch_body_def)
  have "[0..<Suc e] = [0..<e] @ [e]" by simp
  then have loop: "epochs_loop W a trl vll optimizer E [0..<Suc e] (start_logs a (initial W a))
       = (Inr (), checkpoint a e train_loss vp ve vt s2)"
    using run body by (simp only: epochs_loop_append) simp
  have first: "best_photo_loss s = - 1" if "e = 0"
  proof -
    from run that have "s = start_logs a (initial W a)" by simp
    then show ?thesis by (simp add: start_logs_def initial_def)
  qed
  have neg: "best_photo_loss (checkpoint a e train_loss vp ve vt s2) = vp \<and>
        checkpoints (checkpoint a e train_loss vp ve vt s2)
          = checkpoints s @ [(int e + 1, False)]" if "best_photo_loss s < 0"
    using that by (simp add: checkpoint_best b c)
  have pos: "best_photo_loss (checkpoint a e train_loss vp ve vt s2) = min (best_photo_loss s) vp \<and>
        checkpoints (checkpoint a e train_loss vp ve vt s2)
          = checkpoints s @ [(int e + 1, vp < best_photo_loss s)]" if "0 \<le> best_photo_loss s"
    using that by (simp add: checkpoint_best b c min.commute)
  have after: "best_photo_loss (checkpoint a e train_loss vp ve vt s2) < 0 \<longleftrightarrow> vp < 0"
    by (auto simp add: checkpoint_best b min_def)
  have later: "0 \<le> best_photo_loss s"
    if "\<forall>t d p b. 0 \<le> fst (loss_terms W t d p b)" and "0 < e"
  proof -
    from that(2) have n: "[0..<e] \<noteq> []" by simp
    from that(1) have nn: "\<And>t d p b. 0 \<le> fst (loss_terms W t d p b)" by simp
    from nn run n show ?thesis by (rule epochs_loop_best_nonneg)
  qed
  from i loop first neg pos after later show ?thesis by blast
qed

text \<open>
  Epoch 1 after the validation photometric loss -1/2 of epoch 0: the stored best is
  negative, the loss -7/10 of epoch 1 overwrites it and the epoch is not flagged, although
  -7/10 is below -1/2. Epoch 1 after the loss 4/5 of epoch 0: the stored best is not
  negative, the loss 3/5 is below it, and the epoch is flagged.
\<close>

theorem best_photo_loss_sentinel_witness:
  "best_photo_loss negative_after_epoch_0 = - 1 / 2 \<and>
   epochs_loop negative_world example_args (train_set negative_world Sequential)
     (val_set negative_world Sequential) [0, 1, 2] 3 [0..<Suc 1]
     (start_logs example_args (initial negative_world example_args))
     = (Inr (), checkpoint example_args 1 (13 / 10) (- 7 / 10) 1 (13 / 10)
                  negative_validated_1) \<and>
   best_photo_loss (checkpoint example_args 1 (13 / 10) (- 7 / 10) 1 (13 / 10)
     negative_validated_1) = - 7 / 10 \<and>
   checkpoints (checkpoint example_args 1 (13 / 10) (- 7 / 10) 1 (13 / 10)
     negative_validated_1) = [(1, False), (2, False)] \<and>
   best_photo_loss scenario_after_epoch_0 = 4 / 5 \<and>
   best_photo_loss (checkpoint example_args 1 (13 / 5) (3 / 5) 1 (13 / 5)
     scenario_validated_1) = 3 / 5 \<and>
   checkpoints (checkpoint example_args 1 (13 / 5) (3 / 5) 1 (13 / 5)
     scenario_validated_1) = [(1, False), (2, True)]"
proof -
  have nb: "best_photo_loss negative_after_epoch_0 = - 1 / 2"
    by code_simp
  have nc: "checkpoints negative_after_epoch_0 = [(1, False)]"
    by code_simp
  have sb: "best_photo_loss scenario_after_epoch_0 = 4 / 5"
    by code_simp
  have sc: "checkpoints scenario_after_epoch_0 = [(1, False)]"
    by code_simp
  have nonneg: "\<forall>t d p b. 0 \<le> fst (loss_terms scenario_world t d p b)"
    by (simp add: scenario_world_def example_world_def)
  show ?thesis
    using best_photo_loss_sentinel [OF negative_epoch_0 negative_train_1 negative_validate_1]
      best_photo_loss_sentinel [OF scenario_epoch_0 scenario_train_1 scenario_validate_1]
      nb nc sb sc nonneg
    by simp
qed

subsection \<open>The pose buffer\<close>

lemma setslice_in_range:
  assumes "l \<le> h" and "h \<le> length xs" and "length v = h - l"
  shows "setslice (int l) (int h) v xs = Inr (take l xs @ v @ drop h xs)"
  using assms by (simp add: setslice_def slice_index_def Let_def)

lemma store_batch_poses_write:
  assumes "0 \<le> batch_size a * (sequence_length a - 1)"
    and "int i < int len_val_loader - 1"
    and "length (pose_rows W (tensors s) b) = nat (batch_size a * (sequence_length a - 1))"
    and "(i + 1) * nat (batch_size a * (sequence_length a - 1)) \<le> length ps"
  shows "store_batch_poses W a len_val_loader True i b s ps =
     Inr (take (i * nat (batch_size a * (sequence_length a - 1))) ps
          @ pose_rows W (tensors s) b
          @ drop ((i + 1) * nat (batch_size a * (sequence_length a - 1))) ps)"
proof -
  define k where "k = nat (batch_size a * (sequence_length a - 1))"
  have st: "batch_size a * (sequence_length a - 1) = int k"
    using assms(1) by (simp add: k_def)
  have lo: "int i * int k = int (i * k)" and hi: "(int i + 1) * int k = int ((i + 1) * k)"
    by (simp_all add: algebra_simps)
  have "setslice (int (i * k)) (int ((i + 1) * k)) (pose_rows W (tensors s) b) ps =
      Inr (take (i * k) ps @ pose_rows W (tensors s) b @ drop ((i + 1) * k) ps)"
    using assms(3,4) by (intro setslice_in_range) (simp_all add: k_def)
  then show ?thesis
    using assms(2) unfolding store_batch_poses_def Let_def st lo hi k_def [symmetric]
    by simp
qed

lemma store_batch_poses_skip:
  "\<not> (log_outputs \<and> int i < int len_val_loader - 1) \<Longrightarrow>
   store_batch_poses W a len_val_loader log_outputs i b s ps = Inr ps"
  by (auto simp add: store_batch_poses_def)

lemma validate_batch_result:
  assumes "print_freq a \<noteq> 0"
    and "store_batch_poses W a len_val_loader log_outputs i b s (poses L) = Inr ps"
  shows "\<exists>L'. validate_batch W a len_val_loader log_outputs epoch i b L s
            = (Inr L', log_batch_output W log_outputs epoch i b s) \<and>
          poses L' = ps \<and>
          meter_count (losses1 L') = meter_count (losses1 L) + 1 \<and>
          meter_count (losses2 L') = meter_count (losses2 L) + 1 \<and>
          meter_count (losses L') = meter_count (losses L) + 1"
  using assms
  by (cases "loss_terms W (tensors s) (disp_net s) (pose_exp_net s) b")
     (simp add: validate_batch_def Let_def update_def)

lemma log_batch_output_tensors:
  "tensors (log_batch_output W log_outputs epoch i b s) = tensors s"
  by (simp add: log_batch_output_def)

lemma validate_loop_poses:
  assumes pf: "print_freq a \<noteq> 0"
    and st: "0 \<le> batch_size a * (sequence_length a - 1)"
    and k: "k = nat (batch_size a * (sequence_length a - 1))"
  shows "n + length xs = N \<Longrightarrow>
     (\<forall>j. j < length xs \<longrightarrow> n + j + 1 < N \<longrightarrow> length (pose_rows W (tensors s) (xs ! j)) = k) \<Longrightarrow>
     poses L = Q @ replicate ((N - 1 - n) * k) zero_pose \<Longrightarrow>
     (n + 1 < N \<longrightarrow> length Q = n * k) \<Longrightarrow>
     \<exists>L' s'. validate_loop W a N True epoch (enumerate n xs) L s = (Inr L', s') \<and>
        poses L' = Q @ concat (map (pose_rows W (tensors s)) (take (N - 1 - n) xs)) \<and>
        meter_count (losses1 L') = meter_count (losses1 L) + int (length xs) \<and>
        meter_count (losses2 L') = meter_count (losses2 L) + int (length xs) \<and>
        meter_count (losses L') = meter_count (losses L) + int (length xs)"
proof (induction xs arbitrary: n L s Q)
  case Nil
  then show ?case by simp
next
  case (Cons b xs)
  let ?rows = "pose_rows W (tensors s) b"
  let ?s1 = "log_batch_output W True epoch n b s"
  have t1: "tensors ?s1 = tensors s" by (rule log_batch_output_tensors)
  show ?case
  proof (cases "n + 1 < N")
    case True
    have lq: "length Q = n * k" using Cons.prems(4) True by simp
    have rows: "length ?rows = k" using Cons.prems(2) True by fastforce
    obtain m where m: "N - 1 - n = Suc m" and m': "N - 1 - Suc n = m"
      using True by (cases "N - 1 - n") auto
    have buf: "poses L = Q @ replicate (k + m * k) zero_pose"
      using Cons.prems(3) m by simp
    have le: "(n + 1) * k \<le> length (poses L)"
      using lq buf by simp
    have tk: "take (n * k) (poses L) = Q" using lq buf by simp
    have dr: "drop ((n + 1) * k) (poses L) = replicate (m * k) zero_pose"
      using lq buf by simp
    have "store_batch_poses W a N True n b s (poses L) =
        Inr (take (n * k) (poses L) @ ?rows @ drop ((n + 1) * k) (poses L))"
      unfolding k using st _ _ le [unfolded k]
    proof (rule store_batch_poses_write)
      show "int n < int N - 1" using True by simp
      show "length ?rows = nat (batch_size a * (sequence_length a - 1))"
        using rows k by simp
    qed
    then have w: "store_batch_poses W a N True n b s (poses L)
        = Inr ((Q @ ?rows) @ replicate (m * k) zero_pose)"
      by (simp only: tk dr append_assoc)
    obtain L1 where vb: "validate_batch W a N True epoch n b L s = (Inr L1, ?s1)"
      and p1: "poses L1 = (Q @ ?rows) @ replicate (m * k) zero_pose"
      and c1: "meter_count (losses1 L1) = meter_count (losses1 L) + 1"
              "meter_count (losses2 L1) = meter_count (losses2 L) + 1"
              "meter_count (losses L1) = meter_count (losses L) + 1"
      using validate_batch_result [OF pf w, of epoch] by blast
    have "\<exists>L' s'. validate_loop W a N True epoch (enumerate (Suc n) xs) L1 ?s1 = (Inr L', s') \<and>
        poses L' = (Q @ ?rows) @ concat (map (pose_rows W (tensors ?s1)) (take (N - 1 - Suc n) xs)) \<and>
        meter_count (losses1 L') = meter_count (losses1 L1) + int (length xs) \<and>
        meter_count (losses2 L') = meter_count (losses2 L1) + int (length xs) \<and>
        meter_count (losses L') = meter_count (losses L1) + int (length xs)"
    proof (rule Cons.IH)
      show "Suc n + length xs = N" using Cons.prems(1) by simp
      show "\<forall>j. j < length xs \<longrightarrow> Suc n + j + 1 < N \<longrightarrow>
              length (pose_rows W (tensors ?s1) (xs ! j)) = k"
      proof (intro allI impI)
        fix j assume "j < length xs" "Suc n + j + 1 < N"
        then have "Suc j < length (b # xs)" "n + Suc j + 1 < N" by simp_all
        with Cons.prems(2) have "length (pose_rows W (tensors s) ((b # xs) ! Suc j)) = k"
          by blast
        then show "length (pose_rows W (tensors ?s1) (xs ! j)) = k" by (simp add: t1)
      qed
      show "poses L1 = (Q @ ?rows) @ replicate ((N - 1 - Suc n) * k) zero_pose"
        using p1 m' by simp
      show "Suc n + 1 < N \<longrightarrow> length (Q @ ?rows) = Suc n * k"
        using lq rows by simp
    qed
    then obtain L' s' where
      lp: "validate_loop W a N True epoch (enumerate (Suc n) xs) L1 ?s1 = (Inr L', s')" and
      pl: "poses L' = (Q @ ?rows) @ concat (map (pose_rows W (tensors s)) (take m xs))" and
      cl: "meter_count (losses1 L') = meter_count (losses1 L1) + int (length xs)"
          "meter_count (losses2 L') = meter_count (losses2 L1) + int (length xs)"
          "meter_count (losses L') = meter_count (losses L1) + int (length xs)"
      using t1 m' by auto
    have "validate_loop W a N True epoch (enumerate n (b # xs)) L s = (Inr L', s')"
      using vb lp by simp
    moreover have "poses L' = Q @ concat (map (pose_rows W (tensors s)) (take (N - 1 - n) (b # xs)))"
      using pl m by simp
    ultimately show ?thesis using cl c1 by simp
  next
    case False
    from Cons.prems(1) have "Suc (n + length xs) = N" by simp
    with False have "length xs = 0 \<and> N - 1 - n = 0" by arith
    then have xs: "xs = []" and N: "N - 1 - n = 0" by simp_all
    have "store_batch_poses W a N True n b s (poses L) = Inr (poses L)"
      using False by (intro store_batch_poses_skip) simp
    then obtain L1 where vb: "validate_batch W a N True epoch n b L s = (Inr L1, ?s1)"
      and p1: "poses L1 = poses L"
      and c1: "meter_count (losses1 L1) = meter_count (losses1 L) + 1"
              "meter_count (losses2 L1) = meter_count (losses2 L) + 1"
              "meter_count (losses L1) = meter_count (losses L) + 1"
      using validate_batch_result [OF pf, of W N True n b s L "poses L" epoch] by blast
    have "validate_loop W a N True epoch (enumerate n (b # xs)) L s = (Inr L1, ?s1)"
      using vb xs by simp
    moreover have "poses L1 = Q @ concat (map (pose_rows W (tensors s)) (take (N - 1 - n) (b # xs)))"
      using p1 Cons.prems(3) N by simp
    ultimately show ?thesis using c1 xs by simp
  qed
qed

lemma log_batch_output_histograms:
  "map (filter is_histogram) (output_writers (log_batch_output W log_outputs epoch i b s))
     = map (filter is_histogram) (output_writers s)"
proof -
  have "(map (filter is_histogram) ws)[j := filter is_histogram (ws ! j)]
      = map (filter is_histogram) ws" if "j < length ws" for ws :: "event list list" and j
    using that by (simp add: list_update_same_conv)
  then show ?thesis
    unfolding log_batch_output_def float_division_bound
    by (simp add: map_update validate_log_output_def)
qed

lemma validate_loop_histograms:
  "map (filter is_histogram)
     (output_writers (snd (validate_loop W a len_val_loader log_outputs epoch xs L s)))
     = map (filter is_histogram) (output_writers s)"
proof (induction xs arbitrary: L s)
  case Nil
  show ?case by simp
next
  case (Cons x xs)
  obtain i b where x: "x = (i, b)" by (cases x)
  obtain r s' where vb: "validate_batch W a len_val_loader log_outputs epoch i b L s = (r, s')"
    by (cases "validate_batch W a len_val_loader log_outputs epoch i b L s")
  have s': "s' = log_batch_output W log_outputs epoch i b s"
    using validate_batch_state [of W a len_val_loader log_outputs epoch i b L s] vb by simp
  have h: "map (filter is_histogram) (output_writers s') = map (filter is_histogram) (output_writers s)"
    unfolding s' by (rule log_batch_output_histograms)
  show ?case
  proof (cases r)
    case (Inl e)
    then show ?thesis using x vb h by simp
  next
    case (Inr L')
    then show ?thesis using x vb h Cons.IH [of L' s'] by simp
  qed
qed

lemma length_concat_constant:
  "\<forall>x \<in> set xs. length (f x) = k \<Longrightarrow> length (concat (map f xs)) = length xs * k"
  by (induction xs) simp_all

lemma np_zeros_nat: "np_zeros (int m) = Inr (replicate m zero_pose)"
  by (simp add: np_zeros_def)

lemma validate_return_logged:
  assumes "meter_count (losses1 L) \<noteq> 0" and "meter_count (losses2 L) \<noteq> 0"
    and "meter_count (losses L) \<noteq> 0"
  shows "\<exists>r. validate_return True epoch L s =
     (Inr r, s\<lparr>output_writers := (output_writers s)
                [0 := output_writers s ! 0 @ pose_histograms (poses L) epoch]\<rparr>)"
  using assms by (simp add: validate_return_def avg_def Let_def)

text \<open>
  C3. Let the validation loader have at least one batch, let batch size times (sequence
  length - 1) be nonnegative and be the number of pose rows of every batch but the last,
  let \<^verbatim>\<open>print_freq\<close> be nonzero and let there be an output writer. Then the buffer
  is allocated with (B - 1) * S * (L - 1) rows; a batch \<open>i < B - 1\<close> writes its pose rows
  to the rows from \<open>i * step\<close> up to \<open>(i + 1) * step\<close>; a later batch, the last one, writes
  nothing; \<^verbatim>\<open>validate\<close> returns; the only histograms it emits are six, to writer 0, one
  for each pose component of the final buffer; and the final buffer is the pose rows of all
  batches but the last, (B - 1) * S * (L - 1) rows.
\<close>

theorem pose_buffer:
  assumes nonempty: "val_loader \<noteq> []"
    and st: "0 \<le> batch_size a * (sequence_length a - 1)"
    and pf: "print_freq a \<noteq> 0"
    and on: "0 < length (output_writers s)"
    and full: "\<forall>b \<in> set (butlast val_loader).
       int (length (pose_rows W (tensors s) b)) = batch_size a * (sequence_length a - 1)"
  shows "np_zeros ((int (length val_loader) - 1) * batch_size a * (sequence_length a - 1)) =
       Inr (replicate
              (nat ((int (length val_loader) - 1) * batch_size a * (sequence_length a - 1)))
              zero_pose) \<and>
     (\<forall>i b ps. int i < int (length val_loader) - 1 \<longrightarrow>
        length (pose_rows W (tensors s) b) = nat (batch_size a * (sequence_length a - 1)) \<longrightarrow>
        (i + 1) * nat (batch_size a * (sequence_length a - 1)) \<le> length ps \<longrightarrow>
        store_batch_poses W a (length val_loader) True i b s ps =
          Inr (take (i * nat (batch_size a * (sequence_length a - 1))) ps
               @ pose_rows W (tensors s) b
               @ drop ((i + 1) * nat (batch_size a * (sequence_length a - 1))) ps)) \<and>
     (\<forall>i b ps. \<not> int i < int (length val_loader) - 1 \<longrightarrow>
        store_batch_poses W a (length val_loader) True i b s ps = Inr ps) \<and>
     (\<exists>r. fst (validate W a val_loader epoch s) = Inr r) \<and>
     map (filter is_histogram) (output_writers (snd (validate W a val_loader epoch s))) =
       (map (filter is_histogram) (output_writers s))
       [0 := filter is_histogram (output_writers s ! 0) @
          [Histogram ''val poses_tx''
             (map tx (concat (map (pose_rows W (tensors s)) (butlast val_loader)))) (int epoch),
           Histogram ''val poses_ty''
             (map ty (concat (map (pose_rows W (tensors s)) (butlast val_loader)))) (int epoch),
           Histogram ''val poses_tz''
             (map tz (concat (map (pose_rows W (tensors s)) (butlast val_loader)))) (int epoch),
           Histogram ''val poses_rx''
             (map rx (concat (map (pose_rows W (tensors s)) (butlast val_loader)))) (int epoch),
           Histogram ''val poses_ry''
             (map ry (concat (map (pose_rows W (tensors s)) (butlast val_loader)))) (int epoch),
           Histogram ''val poses_rz''
             (map rz (concat (map (pose_rows W (tensors s)) (butlast val_loader)))) (int epoch)]] \<and>
     int (length (concat (map (pose_rows W (tensors s)) (butlast val_loader)))) =
       (int (length val_loader) - 1) * batch_size a * (sequence_length a - 1)"
proof -
  define k where "k = nat (batch_size a * (sequence_length a - 1))"
  define B where "B = length val_loader"
  define P where "P = concat (map (pose_rows W (tensors s)) (butlast val_loader))"
  define s1 where "s1 = s\<lparr>disp_net := (disp_net s)\<lparr>training := False\<rparr>,
                 pose_exp_net := (pose_exp_net s)\<lparr>training := False\<rparr>\<rparr>"
  define L0 where "L0 = \<lparr>poses = replicate ((B - 1) * k) zero_pose, losses = reset,
                         losses1 = reset, losses2 = reset\<rparr>"
  have B: "0 < B" using nonempty by (simp add: B_def)
  have ik: "int k = batch_size a * (sequence_length a - 1)" using st by (simp add: k_def)
  have rows: "(int (length val_loader) - 1) * batch_size a * (sequence_length a - 1)
      = int ((B - 1) * k)"
    using B by (simp add: B_def [symmetric] ik [symmetric] mult.assoc of_nat_diff)
  have fullk: "\<forall>b \<in> set (butlast val_loader). length (pose_rows W (tensors s) b) = k"
    using full ik by (metis of_nat_eq_iff)
  have alloc: "np_zeros ((int (length val_loader) - 1) * batch_size a * (sequence_length a - 1))
      = Inr (replicate ((B - 1) * k) zero_pose)"
    unfolding rows by (rule np_zeros_nat)
  have lenP: "length P = (B - 1) * k"
    unfolding P_def using length_concat_constant [OF fullk] by (simp add: B_def)
  have wr: "\<forall>i b ps. int i < int (length val_loader) - 1 \<longrightarrow>
        length (pose_rows W (tensors s) b) = k \<longrightarrow> (i + 1) * k \<le> length ps \<longrightarrow>
        store_batch_poses W a (length val_loader) True i b s ps =
          Inr (take (i * k) ps @ pose_rows W (tensors s) b @ drop ((i + 1) * k) ps)"
    unfolding k_def by (intro allI impI store_batch_poses_write st)
  have sk: "\<forall>i b ps. \<not> int i < int (length val_loader) - 1 \<longrightarrow>
        store_batch_poses W a (length val_loader) True i b s ps = Inr ps"
    by (simp add: store_batch_poses_skip)
  have "\<exists>L' s'. validate_loop W a B True epoch (enumerate 0 val_loader) L0 s1 = (Inr L', s') \<and>
        poses L' = [] @ concat (map (pose_rows W (tensors s1)) (take (B - 1 - 0) val_loader)) \<and>
        meter_count (losses1 L') = meter_count (losses1 L0) + int (length val_loader) \<and>
        meter_count (losses2 L') = meter_count (losses2 L0) + int (length val_loader) \<and>
        meter_count (losses L') = meter_count (losses L0) + int (length val_loader)"
    using pf st k_def
  proof (rule validate_loop_poses)
    show "0 + length val_loader = B" by (simp add: B_def)
    show "\<forall>j. j < length val_loader \<longrightarrow> 0 + j + 1 < B \<longrightarrow>
        length (pose_rows W (tensors s1) (val_loader ! j)) = k"
    proof (intro allI impI)
      fix j assume "j < length val_loader" "0 + j + 1 < B"
      then have j: "j < length (butlast val_loader)" by (simp add: B_def)
      then have "butlast val_loader ! j \<in> set (butlast val_loader)" by (rule nth_mem)
      then have "val_loader ! j \<in> set (butlast val_loader)" using j by (simp add: nth_butlast)
      with fullk show "length (pose_rows W (tensors s1) (val_loader ! j)) = k"
        by (simp add: s1_def)
    qed
    show "poses L0 = [] @ replicate ((B - 1 - 0) * k) zero_pose" by (simp add: L0_def)
    show "0 + 1 < B \<longrightarrow> length ([] :: pose list) = 0 * k" by simp
  qed
  then obtain L' s' where
    lp: "validate_loop W a B True epoch (enumerate 0 val_loader) L0 s1 = (Inr L', s')" and
    pl: "poses L' = P" and
    cl: "meter_count (losses1 L') = int B" "meter_count (losses2 L') = int B"
        "meter_count (losses L') = int B"
    by (auto simp add: P_def s1_def L0_def reset_def B_def butlast_conv_take)
  have v: "validate W a val_loader epoch s = validate_return True epoch L' s'"
    using validate_unfold [OF alloc, of W epoch s] lp on
    by (simp add: B_def s1_def L0_def)
  obtain r where ret: "validate_return True epoch L' s' =
     (Inr r, s'\<lparr>output_writers := (output_writers s')
                [0 := output_writers s' ! 0 @ pose_histograms P epoch]\<rparr>)"
    using validate_return_logged [of L' epoch s'] cl B pl by auto
  have h: "map (filter is_histogram) (output_writers s')
      = map (filter is_histogram) (output_writers s)"
    using validate_loop_histograms [of W a B True epoch "enumerate 0 val_loader" L0 s1] lp
    by (simp add: s1_def)
  have l0: "0 < length (output_writers s')"
    using h on by (metis length_map)
  have h0: "filter is_histogram (output_writers s' ! 0) = filter is_histogram (output_writers s ! 0)"
    using h l0 on by (metis nth_map)
  have hist: "map (filter is_histogram) (output_writers (snd (validate W a val_loader epoch s)))
      = (map (filter is_histogram) (output_writers s))
          [0 := filter is_histogram (output_writers s ! 0) @ pose_histograms P epoch]"
    by (simp add: v ret map_update h h0 pose_histograms_def)
  have ret': "\<exists>r. fst (validate W a val_loader epoch s) = Inr r"
    using v ret by (metis fst_conv)
  have natrows:
    "nat ((int (length val_loader) - 1) * batch_size a * (sequence_length a - 1)) = (B - 1) * k"
    unfolding rows by (rule nat_int)
  have c1: "np_zeros ((int (length val_loader) - 1) * batch_size a * (sequence_length a - 1)) =
       Inr (replicate
              (nat ((int (length val_loader) - 1) * batch_size a * (sequence_length a - 1)))
              zero_pose)"
    unfolding natrows by (rule alloc)
  have c6: "int (length P) =
      (int (length val_loader) - 1) * batch_size a * (sequence_length a - 1)"
    by (simp only: lenP rows)
  show ?thesis
    unfolding P_def [symmetric] k_def [symmetric]
    by (intro conjI c1 wr sk ret' hist [unfolded pose_histograms_def] c6)
qed

text \<open>
  Three validation batches, batch size 1, sequence length 3: the buffer has four rows, the
  rows of batches 0 and 1; the rows of batch 2 (translations 2 and 5/2) are not in it.
\<close>

theorem pose_buffer_witness:
  "map (filter is_histogram)
     (output_writers (snd (validate (example_world 2 3 (\<lambda>_. 1))
        (example_args\<lparr>log_output := True\<rparr>) [(0, 0), (0, 1), (0, 2)] 0
        (initial (example_world 2 3 (\<lambda>_. 1)) (example_args\<lparr>log_output := True\<rparr>))))) =
     [[Histogram ''val poses_tx'' [0, 1 / 2, 1, 3 / 2] 0,
       Histogram ''val poses_ty'' [0, 0, 0, 0] 0,
       Histogram ''val poses_tz'' [0, 0, 0, 0] 0,
       Histogram ''val poses_rx'' [0, 0, 0, 0] 0,
       Histogram ''val poses_ry'' [0, 0, 0, 0] 0,
       Histogram ''val poses_rz'' [0, 0, 0, 0] 0], [], []] \<and>
   np_zeros ((int (length [(0, 0), (0, 1), (0 :: nat, 2 :: nat)]) - 1)
       * batch_size (example_args\<lparr>log_output := True\<rparr>)
       * (sequence_length (example_args\<lparr>log_output := True\<rparr>) - 1))
     = Inr (replicate 4 zero_pose)"
proof -
  let ?W = "example_world 2 3 (\<lambda>_. 1)"
  let ?a = "example_args\<lparr>log_output := True\<rparr>"
  let ?vl = "[(0, 0), (0, 1), (0 :: nat, 2 :: nat)]"
  have h1: "?vl \<noteq> []" by simp
  have h2: "0 \<le> batch_size ?a * (sequence_length ?a - 1)"
    by (simp add: example_args_def)
  have h3: "print_freq ?a \<noteq> 0"
    by (simp add: example_args_def)
  have h4: "0 < length (output_writers (initial ?W ?a))"
    by (simp add: initial_def)
  have h5: "\<forall>b \<in> set (butlast ?vl).
      int (length (pose_rows ?W (tensors (initial ?W ?a)) b))
        = batch_size ?a * (sequence_length ?a - 1)"
    by (simp add: example_world_def example_args_def)
  have e: "map (filter is_histogram)
     (output_writers (snd (validate ?W ?a ?vl 0 (initial ?W ?a)))) =
     [[Histogram ''val poses_tx'' [0, 1 / 2, 1, 3 / 2] 0,
       Histogram ''val poses_ty'' [0, 0, 0, 0] 0,
       Histogram ''val poses_tz'' [0, 0, 0, 0] 0,
       Histogram ''val poses_rx'' [0, 0, 0, 0] 0,
       Histogram ''val poses_ry'' [0, 0, 0, 0] 0,
       Histogram ''val poses_rz'' [0, 0, 0, 0] 0], [], []]"
    by code_simp
  have n: "nat ((int (length ?vl) - 1) * batch_size ?a * (sequence_length ?a - 1)) = 4"
    by (simp add: example_args_def)
  from pose_buffer [OF h1 h2 h3 h4 h5, of 0]
  have "np_zeros ((int (length ?vl) - 1) * batch_size ?a * (sequence_length ?a - 1)) =
       Inr (replicate
              (nat ((int (length ?vl) - 1) * batch_size ?a * (sequence_length ?a - 1)))
              zero_pose)"
    by (rule conjunct1)
  then have "np_zeros ((int (length ?vl) - 1) * batch_size ?a * (sequence_length ?a - 1)) =
       Inr (replicate 4 zero_pose)"
    unfolding n .
  with e show ?thesis by (rule conjI)
qed

subsection \<open>Images during validation\<close>

lemma validate_loop_state:
  "validate_loop W a len_val_loader log_outputs epoch xs L s = (Inr L', s') \<Longrightarrow>
   s' = fold (\<lambda>x. log_batch_output W log_outputs epoch (fst x) (snd x)) xs s"
proof (induction xs arbitrary: L s)
  case Nil
  then show ?case by simp
next
  case (Cons x xs)
  obtain i b where x: "x = (i, b)" by (cases x)
  obtain r s1 where vb: "validate_batch W a len_val_loader log_outputs epoch i b L s = (r, s1)"
    by (cases "validate_batch W a len_val_loader log_outputs epoch i b L s")
  have s1: "s1 = log_batch_output W log_outputs epoch i b s"
    using validate_batch_state [of W a len_val_loader log_outputs epoch i b L s] vb by simp
  from Cons.prems x vb obtain L1 where r: "r = Inr L1"
    by (cases r) auto
  have "validate_loop W a len_val_loader log_outputs epoch xs L1 s1 = (Inr L', s')"
    using Cons.prems x vb r by simp
  from Cons.IH [OF this] show ?case by (simp add: x s1)
qed

lemma log_batch_output_writers:
  "length (output_writers (log_batch_output W log_outputs epoch i b s))
     = length (output_writers s) \<and>
   (\<forall>c < length (output_writers s).
      output_writers (log_batch_output W log_outputs epoch i b s) ! c =
        output_writers s ! c @
        (if log_outputs \<and> i mod 100 = 0 \<and> i div 100 < length (output_writers s)
            \<and> c = i div 100
         then validate_log_output (num_refs W b) epoch else []))"
  unfolding log_batch_output_def float_division_bound
  by (auto simp add: nth_list_update)

lemma fold_log_batch_output_writers:
  "length (output_writers
      (fold (\<lambda>x. log_batch_output W log_outputs epoch (fst x) (snd x)) xs s))
     = length (output_writers s) \<and>
   (\<forall>c < length (output_writers s).
      output_writers (fold (\<lambda>x. log_batch_output W log_outputs epoch (fst x) (snd x)) xs s) ! c =
        output_writers s ! c @
        concat (map (\<lambda>x.
          if log_outputs \<and> fst x mod 100 = 0 \<and> fst x div 100 < length (output_writers s)
             \<and> c = fst x div 100
          then validate_log_output (num_refs W (snd x)) epoch else []) xs))"
proof (induction xs arbitrary: s)
  case Nil
  show ?case by simp
next
  case (Cons x xs)
  define s1 where "s1 = log_batch_output W log_outputs epoch (fst x) (snd x) s"
  have l1: "length (output_writers s1) = length (output_writers s)"
    and c1: "\<forall>c < length (output_writers s).
      output_writers s1 ! c =
        output_writers s ! c @
        (if log_outputs \<and> fst x mod 100 = 0 \<and> fst x div 100 < length (output_writers s)
            \<and> c = fst x div 100
         then validate_log_output (num_refs W (snd x)) epoch else [])"
    unfolding s1_def
    using log_batch_output_writers [of W log_outputs epoch "fst x" "snd x" s] by blast+
  have f: "fold (\<lambda>x. log_batch_output W log_outputs epoch (fst x) (snd x)) (x # xs) s
      = fold (\<lambda>x. log_batch_output W log_outputs epoch (fst x) (snd x)) xs s1"
    by (simp add: s1_def)
  show ?case
    unfolding f using Cons.IH [of s1] c1 by (simp add: l1)
qed

lemma validate_return_state:
  "snd (validate_return log_outputs epoch L s) =
     (if log_outputs
      then s\<lparr>output_writers := (output_writers s)
             [0 := output_writers s ! 0 @ pose_histograms (poses L) epoch]\<rparr>
      else s)"
  by (simp add: validate_return_def Let_def split: sum.splits)

lemma map_enumerate_nth:
  "map f (enumerate 0 xs) = map (\<lambda>i. f (i, xs ! i)) [0..<length xs]"
  by (rule nth_equalityI) (simp_all add: nth_enumerate_eq)

text \<open>
  C5. Let \<^verbatim>\<open>validate\<close> be called with at least one output writer, which is when it logs
  output (line 311), and let it return. It leaves the number of writers as it was, and the
  writer \<open>c\<close> has received, after what it held: for each batch index \<open>i\<close> of the loader in
  turn, with \<open>i mod 100 = 0\<close>, \<open>i div 100\<close> below the number of writers and \<open>c = i div 100\<close>,
  the images of batch \<open>i\<close> (in epoch 0, and in no other, the target and the reference of
  each reference image; then the disparity, the depth and, for each reference image, the
  warped image, the residual and the mask), and nothing for any other batch index; and
  then, for writer 0 only, the six histograms of the poses.
\<close>

theorem validate_channel_gate:
  assumes on: "0 < length (output_writers s)"
    and ret: "validate W a val_loader epoch s = (Inr r, s')"
  shows "length (output_writers s') = length (output_writers s) \<and>
     (\<forall>c < length (output_writers s). \<exists>P :: pose list.
        output_writers s' ! c =
          output_writers s ! c @
          concat (map (\<lambda>i.
            if i mod 100 = 0 \<and> i div 100 < length (output_writers s) \<and> c = i div 100
            then (if epoch = 0
                  then concat (map (\<lambda>j. [Image ''val Input {}'' [j] 0,
                                          Image ''val Input {}'' [j] 1])
                         [0..<num_refs W (val_loader ! i)])
                  else []) @
                 [Image ''val Dispnet Output'' [] (int epoch),
                  Image ''val Depth Output Normalized'' [] (int epoch)] @
                 concat (map (\<lambda>j.
                   [Image ''val Warped Outputs {}'' [j] (int epoch),
                    Image ''val Diff Outputs {}'' [j] (int epoch),
                    Image ''val Exp mask Outputs {}'' [j] (int epoch)])
                   [0..<num_refs W (val_loader ! i)])
            else []) [0..<length val_loader]) @
          (if c = 0
           then [Histogram ''val poses_tx'' (map tx P) (int epoch),
                 Histogram ''val poses_ty'' (map ty P) (int epoch),
                 Histogram ''val poses_tz'' (map tz P) (int epoch),
                 Histogram ''val poses_rx'' (map rx P) (int epoch),
                 Histogram ''val poses_ry'' (map ry P) (int epoch),
                 Histogram ''val poses_rz'' (map rz P) (int epoch)]
           else []))"
proof -
  let ?n = "length (output_writers s)"
  define s1 where "s1 = s\<lparr>disp_net := (disp_net s)\<lparr>training := False\<rparr>,
                 pose_exp_net := (pose_exp_net s)\<lparr>training := False\<rparr>\<rparr>"
  define body where
    "body = (\<lambda>c x. if True \<and> fst x mod 100 = 0 \<and> fst x div 100 < length (output_writers s1)
                      \<and> c = fst x div 100
                   then validate_log_output (num_refs W (snd x)) epoch else [])"
  have w1: "output_writers s1 = output_writers s" by (simp add: s1_def)
  obtain zeros where z:
    "np_zeros ((int (length val_loader) - 1) * batch_size a * (sequence_length a - 1))
       = Inr zeros"
    using ret
    by (cases "np_zeros ((int (length val_loader) - 1) * batch_size a * (sequence_length a - 1))")
       (simp_all add: validate_def Let_def)
  obtain r0 s0 where lp: "validate_loop W a (length val_loader) True epoch
       (enumerate 0 val_loader)
       \<lparr>poses = zeros, losses = reset, losses1 = reset, losses2 = reset\<rparr> s1 = (r0, s0)"
    by (cases "validate_loop W a (length val_loader) True epoch (enumerate 0 val_loader)
       \<lparr>poses = zeros, losses = reset, losses1 = reset, losses2 = reset\<rparr> s1")
  have lo: "(0 < length (output_writers s)) = True" using on by simp
  have "validate W a val_loader epoch s =
     (case validate_loop W a (length val_loader) True epoch (enumerate 0 val_loader)
              \<lparr>poses = zeros, losses = reset, losses1 = reset, losses2 = reset\<rparr> s1 of
        (Inl e, s') \<Rightarrow> (Inl e, s')
      | (Inr L, s') \<Rightarrow> validate_return True epoch L s')"
    using validate_unfold [OF z, of W epoch s] by (simp only: lo s1_def)
  then have v: "validate W a val_loader epoch s =
     (case (r0, s0) of (Inl e, s') \<Rightarrow> (Inl e, s')
      | (Inr L, s') \<Rightarrow> validate_return True epoch L s')"
    by (simp only: lp)
  from v ret obtain L' where r0: "r0 = Inr L'"
    by (cases r0) auto
  have vr: "validate_return True epoch L' s0 = (Inr r, s')"
    using v ret r0 by simp
  have s': "s' = s0\<lparr>output_writers := (output_writers s0)
             [0 := output_writers s0 ! 0 @ pose_histograms (poses L') epoch]\<rparr>"
    using validate_return_state [of True epoch L' s0] vr by simp
  have s0: "s0 = fold (\<lambda>x. log_batch_output W True epoch (fst x) (snd x))
                   (enumerate 0 val_loader) s1"
    using lp r0 by (intro validate_loop_state) simp
  have l0: "length (output_writers s0) = ?n"
    and c0: "\<forall>c < ?n. output_writers s0 ! c =
        output_writers s ! c @ concat (map (body c) (enumerate 0 val_loader))"
    unfolding s0 body_def
    using fold_log_batch_output_writers [of W True epoch "enumerate 0 val_loader" s1]
    by (simp_all add: w1)
  have len: "length (output_writers s') = ?n"
    by (simp add: s' l0)
  have ch: "\<exists>P. output_writers s' ! c =
        output_writers s ! c @
        concat (map (\<lambda>i. body c (i, val_loader ! i)) [0..<length val_loader]) @
        (if c = 0 then pose_histograms P epoch else [])" if "c < ?n" for c
  proof -
    have "output_writers s' ! c =
        output_writers s0 ! c @ (if c = 0 then pose_histograms (poses L') epoch else [])"
      using that l0 by (auto simp add: s' nth_list_update)
    also have "output_writers s0 ! c
        = output_writers s ! c @ concat (map (body c) (enumerate 0 val_loader))"
      using c0 that by simp
    also have "map (body c) (enumerate 0 val_loader)
        = map (\<lambda>i. body c (i, val_loader ! i)) [0..<length val_loader]"
      by (rule map_enumerate_nth)
    finally show ?thesis by auto
  qed
  have e1: "body c (i, val_loader ! i) =
     (if i mod 100 = 0 \<and> i div 100 < length (output_writers s) \<and> c = i div 100
      then (if epoch = 0
            then concat (map (\<lambda>j. [Image ''val Input {}'' [j] 0,
                                    Image ''val Input {}'' [j] 1])
                   [0..<num_refs W (val_loader ! i)])
            else []) @
           [Image ''val Dispnet Output'' [] (int epoch),
            Image ''val Depth Output Normalized'' [] (int epoch)] @
           concat (map (\<lambda>j.
             [Image ''val Warped Outputs {}'' [j] (int epoch),
              Image ''val Diff Outputs {}'' [j] (int epoch),
              Image ''val Exp mask Outputs {}'' [j] (int epoch)])
             [0..<num_refs W (val_loader ! i)])
      else [])" for c i
    by (simp add: body_def w1 validate_log_output_def)
  have e2: "pose_histograms P epoch =
     [Histogram ''val poses_tx'' (map tx P) (int epoch),
      Histogram ''val poses_ty'' (map ty P) (int epoch),
      Histogram ''val poses_tz'' (map tz P) (int epoch),
      Histogram ''val poses_rx'' (map rx P) (int epoch),
      Histogram ''val poses_ry'' (map ry P) (int epoch),
      Histogram ''val poses_rz'' (map rz P) (int epoch)]" for P
    by (simp add: pose_histograms_def)
  show ?thesis
  proof (intro conjI allI impI)
    show "length (output_writers s') = ?n" by (rule len)
  next
    fix c assume "c < ?n"
    from ch [OF this] show "\<exists>P :: pose list.
        output_writers s' ! c =
          output_writers s ! c @
          concat (map (\<lambda>i.
            if i mod 100 = 0 \<and> i div 100 < length (output_writers s) \<and> c = i div 100
            then (if epoch = 0
                  then concat (map (\<lambda>j. [Image ''val Input {}'' [j] 0,
                                          Image ''val Input {}'' [j] 1])
                         [0..<num_refs W (val_loader ! i)])
                  else []) @
                 [Image ''val Dispnet Output'' [] (int epoch),
                  Image ''val Depth Output Normalized'' [] (int epoch)] @
                 concat (map (\<lambda>j.
                   [Image ''val Warped Outputs {}'' [j] (int epoch),
                    Image ''val Diff Outputs {}'' [j] (int epoch),
                    Image ''val Exp mask Outputs {}'' [j] (int epoch)])
                   [0..<num_refs W (val_loader ! i)])
            else []) [0..<length val_loader]) @
          (if c = 0
           then [Histogram ''val poses_tx'' (map tx P) (int epoch),
                 Histogram ''val poses_ty'' (map ty P) (int epoch),
                 Histogram ''val poses_tz'' (map tz P) (int epoch),
                 Histogram ''val poses_rx'' (map rx P) (int epoch),
                 Histogram ''val poses_ry'' (map ry P) (int epoch),
                 Histogram ''val poses_rz'' (map rz P) (int epoch)]
           else [])"
      unfolding e1 e2 .
  qed
qed

lemma validate_returns:
  assumes nonempty: "val_loader \<noteq> []"
    and st: "0 \<le> batch_size a * (sequence_length a - 1)"
    and pf: "print_freq a \<noteq> 0"
    and on: "0 < length (output_writers s)"
    and full: "\<forall>b \<in> set (butlast val_loader).
       int (length (pose_rows W (tensors s) b)) = batch_size a * (sequence_length a - 1)"
  shows "\<exists>r s'. validate W a val_loader epoch s = (Inr r, s')"
proof -
  define k where "k = nat (batch_size a * (sequence_length a - 1))"
  define B where "B = length val_loader"
  define s1 where "s1 = s\<lparr>disp_net := (disp_net s)\<lparr>training := False\<rparr>,
                 pose_exp_net := (pose_exp_net s)\<lparr>training := False\<rparr>\<rparr>"
  define L0 where "L0 = \<lparr>poses = replicate ((B - 1) * k) zero_pose, losses = reset,
                         losses1 = reset, losses2 = reset\<rparr>"
  have B: "0 < B" using nonempty by (simp add: B_def)
  have ik: "int k = batch_size a * (sequence_length a - 1)" using st by (simp add: k_def)
  have rows: "(int (length val_loader) - 1) * batch_size a * (sequence_length a - 1)
      = int ((B - 1) * k)"
    using B by (simp add: B_def [symmetric] ik [symmetric] mult.assoc of_nat_diff)
  have fullk: "\<forall>b \<in> set (butlast val_loader). length (pose_rows W (tensors s) b) = k"
    using full ik by (metis of_nat_eq_iff)
  have alloc: "np_zeros ((int (length val_loader) - 1) * batch_size a * (sequence_length a - 1))
      = Inr (replicate ((B - 1) * k) zero_pose)"
    unfolding rows by (rule np_zeros_nat)
  have "\<exists>L' s'. validate_loop W a B True epoch (enumerate 0 val_loader) L0 s1 = (Inr L', s') \<and>
        poses L' = [] @ concat (map (pose_rows W (tensors s1)) (take (B - 1 - 0) val_loader)) \<and>
        meter_count (losses1 L') = meter_count (losses1 L0) + int (length val_loader) \<and>
        meter_count (losses2 L') = meter_count (losses2 L0) + int (length val_loader) \<and>
        meter_count (losses L') = meter_count (losses L0) + int (length val_loader)"
    using pf st k_def
  proof (rule validate_loop_poses)
    show "0 + length val_loader = B" by (simp add: B_def)
    show "\<forall>j. j < length val_loader \<longrightarrow> 0 + j + 1 < B \<longrightarrow>
        length (pose_rows W (tensors s1) (val_loader ! j)) = k"
    proof (intro allI impI)
      fix j assume "j < length val_loader" "0 + j + 1 < B"
      then have j: "j < length (butlast val_loader)" by (simp add: B_def)
      then have "butlast val_loader ! j \<in> set (butlast val_loader)" by (rule nth_mem)
      then have "val_loader ! j \<in> set (butlast val_loader)" using j by (simp add: nth_butlast)
      with fullk show "length (pose_rows W (tensors s1) (val_loader ! j)) = k"
        by (simp add: s1_def)
    qed
    show "poses L0 = [] @ replicate ((B - 1 - 0) * k) zero_pose" by (simp add: L0_def)
    show "0 + 1 < B \<longrightarrow> length ([] :: pose list) = 0 * k" by simp
  qed
  then obtain L' s' where
    lp: "validate_loop W a B True epoch (enumerate 0 val_loader) L0 s1 = (Inr L', s')" and
    cl: "meter_count (losses1 L') = int B" "meter_count (losses2 L') = int B"
        "meter_count (losses L') = int B"
    by (auto simp add: L0_def reset_def B_def)
  have v: "validate W a val_loader epoch s = validate_return True epoch L' s'"
    using validate_unfold [OF alloc, of W epoch s] lp on
    by (simp add: B_def s1_def L0_def)
  obtain r where "validate_return True epoch L' s' =
     (Inr r, s'\<lparr>output_writers := (output_writers s')
                [0 := output_writers s' ! 0 @ pose_histograms (poses L') epoch]\<rparr>)"
    using validate_return_logged [of L' epoch s'] cl B by auto
  then show ?thesis unfolding v by blast
qed

lemma gate_at_100:
  assumes "length ws = 3"
  shows "concat (map (\<lambda>i. if i mod 100 = 0 \<and> i div 100 < length ws \<and> c = i div 100
                          then f i else [])
     [0..<101]) = (if c = 0 then f 0 else if c = 1 then f 100 else [])"
proof -
  have u: "[0..<101] = 0 # [1..<100] @ [100 :: nat]"
    by (simp add: upt_rec [of 0] upt_Suc_append [symmetric] del: upt_Suc)
  have m: "\<forall>i \<in> set [1..<100]. i mod 100 \<noteq> 0"
    by simp
  have "concat (map (\<lambda>i. if i mod 100 = 0 \<and> i div 100 < length ws \<and> c = i div 100
                         then f i else [])
     [1..<100]) = []"
    using m by (simp add: concat_eq_Nil_conv)
  then show ?thesis
    unfolding u using assms by simp
qed

text \<open>
  A loader of 101 batches and three writers, empty at the start. In epoch 0, writer 1
  receives the inputs and the images of batch 100. In epoch 1, writer 1 receives the images
  of batch 100 without the inputs, writer 2 receives nothing, and writer 0 receives the
  images of batch 0 and then the six histograms.
\<close>

theorem validate_channel_gate_witness:
  "output_writers (snd (validate (example_world 2 101 (\<lambda>_. 1))
      (example_args\<lparr>log_output := True\<rparr>)
      (iterate (val_set (example_world 2 101 (\<lambda>_. 1)) Sequential) 0) 0
      (initial (example_world 2 101 (\<lambda>_. 1)) (example_args\<lparr>log_output := True\<rparr>)))) ! 1 =
     [Image ''val Input {}'' [0] 0, Image ''val Input {}'' [0] 1,
      Image ''val Input {}'' [1] 0, Image ''val Input {}'' [1] 1,
      Image ''val Dispnet Output'' [] 0, Image ''val Depth Output Normalized'' [] 0,
      Image ''val Warped Outputs {}'' [0] 0, Image ''val Diff Outputs {}'' [0] 0,
      Image ''val Exp mask Outputs {}'' [0] 0,
      Image ''val Warped Outputs {}'' [1] 0, Image ''val Diff Outputs {}'' [1] 0,
      Image ''val Exp mask Outputs {}'' [1] 0] \<and>
   output_writers (snd (validate (example_world 2 101 (\<lambda>_. 1))
      (example_args\<lparr>log_output := True\<rparr>)
      (iterate (val_set (example_world 2 101 (\<lambda>_. 1)) Sequential) 1) 1
      (initial (example_world 2 101 (\<lambda>_. 1)) (example_args\<lparr>log_output := True\<rparr>)))) ! 1 =
     [Image ''val Dispnet Output'' [] 1, Image ''val Depth Output Normalized'' [] 1,
      Image ''val Warped Outputs {}'' [0] 1, Image ''val Diff Outputs {}'' [0] 1,
      Image ''val Exp mask Outputs {}'' [0] 1,
      Image ''val Warped Outputs {}'' [1] 1, Image ''val Diff Outputs {}'' [1] 1,
      Image ''val Exp mask Outputs {}'' [1] 1] \<and>
   output_writers (snd (validate (example_world 2 101 (\<lambda>_. 1))
      (example_args\<lparr>log_output := True\<rparr>)
      (iterate (val_set (example_world 2 101 (\<lambda>_. 1)) Sequential) 1) 1
      (initial (example_world 2 101 (\<lambda>_. 1)) (example_args\<lparr>log_output := True\<rparr>)))) ! 2 = [] \<and>
   take 8 (output_writers (snd (validate (example_world 2 101 (\<lambda>_. 1))
      (example_args\<lparr>log_output := True\<rparr>)
      (iterate (val_set (example_world 2 101 (\<lambda>_. 1)) Sequential) 1) 1
      (initial (example_world 2 101 (\<lambda>_. 1)) (example_args\<lparr>log_output := True\<rparr>)))) ! 0) =
     [Image ''val Dispnet Output'' [] 1, Image ''val Depth Output Normalized'' [] 1,
      Image ''val Warped Outputs {}'' [0] 1, Image ''val Diff Outputs {}'' [0] 1,
      Image ''val Exp mask Outputs {}'' [0] 1,
      Image ''val Warped Outputs {}'' [1] 1, Image ''val Diff Outputs {}'' [1] 1,
      Image ''val Exp mask Outputs {}'' [1] 1] \<and>
   length (output_writers (snd (validate (example_world 2 101 (\<lambda>_. 1))
      (example_args\<lparr>log_output := True\<rparr>)
      (iterate (val_set (example_world 2 101 (\<lambda>_. 1)) Sequential) 1) 1
      (initial (example_world 2 101 (\<lambda>_. 1)) (example_args\<lparr>log_output := True\<rparr>)))) ! 0)
     = 14"
proof -
  define W where "W = example_world 2 101 (\<lambda>_. 1)"
  define a where "a = example_args\<lparr>log_output := True\<rparr>"
  define loader where "loader = (\<lambda>pass. iterate (val_set W Sequential) pass)"
  have ll: "length (loader pass) = 101" for pass
    by (simp add: loader_def iterate_def W_def example_world_def)
  have ow: "output_writers (initial W a) = [[], [], []]"
    by (simp add: initial_def a_def)
  have on: "0 < length (output_writers (initial W a))"
    by (simp add: ow)
  have c1: "1 < length (output_writers (initial W a))"
    by (simp add: ow)
  have c2: "2 < length (output_writers (initial W a))"
    by (simp add: ow)
  have l3: "length (output_writers (initial W a)) = 3"
    by (simp add: ow)
  have returns: "\<exists>r s'. validate W a (loader pass) epoch (initial W a) = (Inr r, s')"
    for pass epoch
  proof (rule validate_returns)
    show "loader pass \<noteq> []" using ll [of pass] by auto
    show "0 \<le> batch_size a * (sequence_length a - 1)"
      by (simp add: a_def example_args_def)
    show "print_freq a \<noteq> 0" by (simp add: a_def example_args_def)
    show "0 < length (output_writers (initial W a))" by (rule on)
    show "\<forall>b \<in> set (butlast (loader pass)).
       int (length (pose_rows W (tensors (initial W a)) b))
         = batch_size a * (sequence_length a - 1)"
      by (simp add: W_def example_world_def a_def example_args_def)
  qed
  have refs: "num_refs W b = 2" for b
    by (simp add: W_def example_world_def)
  have two: "[0..<2] = [0, 1 :: nat]"
    by (simp add: upt_rec)
  obtain r0 s0 where ret0: "validate W a (loader 0) 0 (initial W a) = (Inr r0, s0)"
    using returns [of 0 0] by blast
  obtain r1 s1 where ret1: "validate W a (loader 1) 1 (initial W a) = (Inr r1, s1)"
    using returns [of 1 1] by blast
  have e0: "snd (validate W a (loader 0) 0 (initial W a)) = s0"
    unfolding ret0 by simp
  have e1: "snd (validate W a (loader 1) 1 (initial W a)) = s1"
    unfolding ret1 by simp
  have first: "output_writers s0 ! 1 =
     [Image ''val Input {}'' [0] 0, Image ''val Input {}'' [0] 1,
      Image ''val Input {}'' [1] 0, Image ''val Input {}'' [1] 1,
      Image ''val Dispnet Output'' [] 0, Image ''val Depth Output Normalized'' [] 0,
      Image ''val Warped Outputs {}'' [0] 0, Image ''val Diff Outputs {}'' [0] 0,
      Image ''val Exp mask Outputs {}'' [0] 0,
      Image ''val Warped Outputs {}'' [1] 0, Image ''val Diff Outputs {}'' [1] 0,
      Image ''val Exp mask Outputs {}'' [1] 0]"
    using validate_channel_gate [OF on ret0, THEN conjunct2, rule_format, OF c1,
            unfolded ll gate_at_100 [OF l3]]
    by (simp add: ow refs two)
  have later: "output_writers s1 ! 1 =
     [Image ''val Dispnet Output'' [] 1, Image ''val Depth Output Normalized'' [] 1,
      Image ''val Warped Outputs {}'' [0] 1, Image ''val Diff Outputs {}'' [0] 1,
      Image ''val Exp mask Outputs {}'' [0] 1,
      Image ''val Warped Outputs {}'' [1] 1, Image ''val Diff Outputs {}'' [1] 1,
      Image ''val Exp mask Outputs {}'' [1] 1] \<and>
     output_writers s1 ! 2 = [] \<and>
     take 8 (output_writers s1 ! 0) =
     [Image ''val Dispnet Output'' [] 1, Image ''val Depth Output Normalized'' [] 1,
      Image ''val Warped Outputs {}'' [0] 1, Image ''val Diff Outputs {}'' [0] 1,
      Image ''val Exp mask Outputs {}'' [0] 1,
      Image ''val Warped Outputs {}'' [1] 1, Image ''val Diff Outputs {}'' [1] 1,
      Image ''val Exp mask Outputs {}'' [1] 1] \<and>
     length (output_writers s1 ! 0) = 14"
    using validate_channel_gate [OF on ret1, THEN conjunct2, rule_format, OF c1,
            unfolded ll gate_at_100 [OF l3]]
      validate_channel_gate [OF on ret1, THEN conjunct2, rule_format, OF c2,
            unfolded ll gate_at_100 [OF l3]]
      validate_channel_gate [OF on ret1, THEN conjunct2, rule_format, OF on,
            unfolded ll gate_at_100 [OF l3]]
    by (auto simp add: ow refs two)
  from first later show ?thesis
    unfolding W_def [symmetric] a_def [symmetric]
    using e0 e1 unfolding loader_def by simp
qed

subsection \<open>The step counter\<close>

lemma train_batch_quiet:
  assumes "\<not> log_output a" and "print_freq a \<noteq> 0"
  shows "\<exists>m' s'. train_batch W a optimizer i b m s = (Inr m', s') \<and>
     adam_steps s' = adam_steps s + 1 \<and> n_iter s' = n_iter s \<and>
     meter_count m' = meter_count m + batch_size a"
  using assms
  by (cases "loss_terms W (tensors s) (disp_net s) (pose_exp_net s) b")
     (simp add: train_batch_def Let_def update_def)

lemma rounds_run_step:
  "\<not> int n \<ge> E - 1 \<Longrightarrow>
   rounds_run E n (Suc len) = Suc (rounds_run E (Suc n) len) \<and>
   increments_made E n (Suc len) = Suc (increments_made E (Suc n) len)"
  by (auto simp add: rounds_run_def increments_made_def max_def)

lemma rounds_run_break:
  "int n \<ge> E - 1 \<Longrightarrow>
   rounds_run E n (Suc len) = 1 \<and> increments_made E n (Suc len) = 0"
  by (auto simp add: rounds_run_def increments_made_def max_def)

lemma train_loop_counters:
  assumes "\<not> log_output a" and "print_freq a \<noteq> 0"
  shows "\<exists>m' s'. train_loop W a optimizer E (enumerate n xs) m s = (Inr m', s') \<and>
     adam_steps s' = adam_steps s + rounds_run E n (length xs) \<and>
     n_iter s' = n_iter s + int (increments_made E n (length xs)) \<and>
     meter_count m' = meter_count m + batch_size a * int (rounds_run E n (length xs))"
proof (induction xs arbitrary: n m s)
  case Nil
  show ?case by (simp add: rounds_run_def increments_made_def)
next
  case (Cons b xs)
  obtain m1 s1 where tb: "train_batch W a optimizer n b m s = (Inr m1, s1)"
    and a1: "adam_steps s1 = adam_steps s + 1" and n1: "n_iter s1 = n_iter s"
    and c1: "meter_count m1 = meter_count m + batch_size a"
    using train_batch_quiet [OF assms, of W optimizer n b m s] by blast
  show ?case
  proof (cases "int n \<ge> E - 1")
    case True
    have "train_loop W a optimizer E (enumerate n (b # xs)) m s = (Inr m1, s1)"
      using tb True by simp
    then show ?thesis
      using a1 n1 c1 rounds_run_break [OF True, of "length xs"] by simp
  next
    case False
    define s2 where "s2 = s1\<lparr>n_iter := n_iter s1 + 1\<rparr>"
    obtain m' s' where
      lp: "train_loop W a optimizer E (enumerate (Suc n) xs) m1 s2 = (Inr m', s')" and
      a': "adam_steps s' = adam_steps s2 + rounds_run E (Suc n) (length xs)" and
      n': "n_iter s' = n_iter s2 + int (increments_made E (Suc n) (length xs))" and
      c': "meter_count m' = meter_count m1
             + batch_size a * int (rounds_run E (Suc n) (length xs))"
      using Cons.IH [of "Suc n" m1 s2] by blast
    have "train_loop W a optimizer E (enumerate n (b # xs)) m s = (Inr m', s')"
      using tb False lp by (simp add: s2_def)
    then show ?thesis
      using a' n' c' a1 n1 c1 rounds_run_step [OF False, of "length xs"]
      by (simp add: s2_def algebra_simps)
  qed
qed

lemma train_counters:
  assumes "\<not> log_output a" and "print_freq a \<noteq> 0" and "batch_size a \<noteq> 0"
    and "train_loader \<noteq> []"
  shows "\<exists>r s'. train W a train_loader optimizer E s = (Inr r, s') \<and>
     adam_steps s' = adam_steps s + rounds_run E 0 (length train_loader) \<and>
     n_iter s' = n_iter s + int (increments_made E 0 (length train_loader))"
proof -
  define s1 where "s1 = s\<lparr>disp_net := (disp_net s)\<lparr>training := True\<rparr>,
                 pose_exp_net := (pose_exp_net s)\<lparr>training := True\<rparr>\<rparr>"
  obtain m' s' where
    lp: "train_loop W a optimizer E (enumerate 0 train_loader) reset s1 = (Inr m', s')" and
    a': "adam_steps s' = adam_steps s1 + rounds_run E 0 (length train_loader)" and
    n': "n_iter s' = n_iter s1 + int (increments_made E 0 (length train_loader))" and
    c': "meter_count m' = meter_count reset
           + batch_size a * int (rounds_run E 0 (length train_loader))"
    using train_loop_counters [OF assms(1,2), of W optimizer E 0 train_loader reset s1] by blast
  have "rounds_run E 0 (length train_loader) \<noteq> 0"
    using assms(4) by (auto simp add: rounds_run_def max_def)
  then have "meter_count m' \<noteq> 0"
    using c' assms(3) by (simp add: reset_def)
  then obtain r where "avg m' = Inr r" by (auto simp add: avg_def)
  then have "train W a train_loader optimizer E s = (Inr r, s')"
    using lp by (simp add: train_def s1_def)
  then show ?thesis using a' n' by (auto simp add: s1_def)
qed

lemma validate_loop_quiet:
  assumes "print_freq a \<noteq> 0"
  shows "\<exists>L' s'. validate_loop W a len_val_loader False epoch xs L s = (Inr L', s') \<and>
     meter_count (losses1 L') = meter_count (losses1 L) + int (length xs) \<and>
     meter_count (losses2 L') = meter_count (losses2 L) + int (length xs) \<and>
     meter_count (losses L') = meter_count (losses L) + int (length xs)"
proof (induction xs arbitrary: L s)
  case Nil
  show ?case by simp
next
  case (Cons x xs)
  obtain i b where x: "x = (i, b)" by (cases x)
  have "store_batch_poses W a len_val_loader False i b s (poses L) = Inr (poses L)"
    by (rule store_batch_poses_skip) simp
  then obtain L1 where
    vb: "validate_batch W a len_val_loader False epoch i b L s
           = (Inr L1, log_batch_output W False epoch i b s)" and
    c1: "meter_count (losses1 L1) = meter_count (losses1 L) + 1"
        "meter_count (losses2 L1) = meter_count (losses2 L) + 1"
        "meter_count (losses L1) = meter_count (losses L) + 1"
    using validate_batch_result [OF assms, of W len_val_loader False i b s L "poses L" epoch]
    by blast
  obtain L' s' where
    lp: "validate_loop W a len_val_loader False epoch xs L1
           (log_batch_output W False epoch i b s) = (Inr L', s')" and
    c': "meter_count (losses1 L') = meter_count (losses1 L1) + int (length xs)"
        "meter_count (losses2 L') = meter_count (losses2 L1) + int (length xs)"
        "meter_count (losses L') = meter_count (losses L1) + int (length xs)"
    using Cons.IH [of L1 "log_batch_output W False epoch i b s"] by blast
  have "validate_loop W a len_val_loader False epoch (x # xs) L s = (Inr L', s')"
    using x vb lp by simp
  then show ?case using c1 c' by simp
qed

lemma validate_quiet:
  assumes "print_freq a \<noteq> 0" and "val_loader \<noteq> []" and "output_writers s = []"
    and "0 \<le> (int (length val_loader) - 1) * batch_size a * (sequence_length a - 1)"
  shows "\<exists>r. fst (validate W a val_loader epoch s) = Inr r"
proof -
  obtain zeros where z:
    "np_zeros ((int (length val_loader) - 1) * batch_size a * (sequence_length a - 1)) = Inr zeros"
    using assms(4) by (simp add: np_zeros_def)
  define s1 where "s1 = s\<lparr>disp_net := (disp_net s)\<lparr>training := False\<rparr>,
                 pose_exp_net := (pose_exp_net s)\<lparr>training := False\<rparr>\<rparr>"
  define L0 where "L0 = \<lparr>poses = zeros, losses = reset, losses1 = reset, losses2 = reset\<rparr>"
  obtain L' s' where
    lp: "validate_loop W a (length val_loader) False epoch (enumerate 0 val_loader) L0 s1
           = (Inr L', s')" and
    c: "meter_count (losses1 L') = meter_count (losses1 L0) + int (length (enumerate 0 val_loader))"
       "meter_count (losses2 L') = meter_count (losses2 L0) + int (length (enumerate 0 val_loader))"
       "meter_count (losses L') = meter_count (losses L0) + int (length (enumerate 0 val_loader))"
    using validate_loop_quiet [OF assms(1), of W "length val_loader" epoch
        "enumerate 0 val_loader" L0 s1] by blast
  have v: "validate W a val_loader epoch s = validate_return False epoch L' s'"
    using validate_unfold [OF z, of W epoch s] lp assms(3) by (simp add: s1_def L0_def)
  have "meter_count (losses1 L') \<noteq> 0" "meter_count (losses2 L') \<noteq> 0"
       "meter_count (losses L') \<noteq> 0"
    using c assms(2) by (simp_all add: L0_def reset_def)
  then have "\<exists>r. fst (validate_return False epoch L' s') = Inr r"
    by (simp add: validate_return_def avg_def)
  then show ?thesis by (simp add: v)
qed

lemma checkpoint_counters:
  "adam_steps (checkpoint a epoch train_loss vp ve vt s) = adam_steps s \<and>
   n_iter (checkpoint a epoch train_loss vp ve vt s) = n_iter s \<and>
   output_writers (checkpoint a epoch train_loss vp ve vt s) = output_writers s"
  by (simp add: checkpoint_def Let_def)

lemma epoch_body_counters:
  assumes "\<not> log_output a" and "print_freq a \<noteq> 0" and "batch_size a \<noteq> 0"
    and "num_batches trl \<noteq> 0" and "num_batches vll \<noteq> 0"
    and "0 \<le> (int (num_batches vll) - 1) * batch_size a * (sequence_length a - 1)"
    and "output_writers s = []"
  shows "\<exists>s'. epoch_body W a trl vll optimizer E epoch s = (Inr (), s') \<and>
     adam_steps s' = adam_steps s + rounds_run E 0 (num_batches trl) \<and>
     n_iter s' = n_iter s + int (increments_made E 0 (num_batches trl)) \<and>
     output_writers s' = []"
proof -
  have lt: "length (iterate trl epoch) = num_batches trl"
    and lv: "length (iterate vll epoch) = num_batches vll"
    by (simp_all add: iterate_def)
  have "iterate trl epoch \<noteq> []" using assms(4) lt by auto
  then obtain r s1 where
    t: "train W a (iterate trl epoch) optimizer E s = (Inr r, s1)" and
    a1: "adam_steps s1 = adam_steps s + rounds_run E 0 (num_batches trl)" and
    n1: "n_iter s1 = n_iter s + int (increments_made E 0 (num_batches trl))"
    using train_counters [OF assms(1,2,3), of "iterate trl epoch" W optimizer E s] lt by auto
  have "training_frame s s1"
    using train_frame_log [of s W a "iterate trl epoch" optimizer E] t by simp
  then have o1: "output_writers s1 = []"
    using assms(7) by (simp add: training_frame_def)
  have "iterate vll epoch \<noteq> []" using assms(5) lv by auto
  then have "\<exists>r. fst (validate W a (iterate vll epoch) epoch s1) = Inr r"
    using assms(2,6) o1 lv by (intro validate_quiet) simp_all
  then obtain vp ve vt s2 where
    v: "validate W a (iterate vll epoch) epoch s1 = (Inr (vp, ve, vt), s2)"
    by (metis prod.collapse prod_cases3)
  have "validation_frame s1 s2"
    using validate_frame [of s1 W a "iterate vll epoch" epoch] v by simp
  then have f2: "adam_steps s2 = adam_steps s1" "n_iter s2 = n_iter s1" "output_writers s2 = []"
    using o1 by (simp_all add: validation_frame_def)
  have "epoch_body W a trl vll optimizer E epoch s = (Inr (), checkpoint a epoch r vp ve vt s2)"
    using t v by (simp add: epoch_body_def)
  then show ?thesis
    using a1 n1 f2 by (simp add: checkpoint_counters)
qed

lemma epochs_loop_counters:
  assumes "\<not> log_output a" and "print_freq a \<noteq> 0" and "batch_size a \<noteq> 0"
    and "num_batches trl \<noteq> 0" and "num_batches vll \<noteq> 0"
    and "0 \<le> (int (num_batches vll) - 1) * batch_size a * (sequence_length a - 1)"
  shows "output_writers s = [] \<Longrightarrow>
     \<exists>s'. epochs_loop W a trl vll optimizer E es s = (Inr (), s') \<and>
       adam_steps s' = adam_steps s + length es * rounds_run E 0 (num_batches trl) \<and>
       n_iter s' = n_iter s + int (length es * increments_made E 0 (num_batches trl))"
proof (induction es arbitrary: s)
  case Nil
  show ?case by simp
next
  case (Cons epoch es)
  obtain s1 where
    b: "epoch_body W a trl vll optimizer E epoch s = (Inr (), s1)" and
    a1: "adam_steps s1 = adam_steps s + rounds_run E 0 (num_batches trl)" and
    n1: "n_iter s1 = n_iter s + int (increments_made E 0 (num_batches trl))" and
    o1: "output_writers s1 = []"
    using epoch_body_counters [OF assms Cons.prems, of W optimizer E epoch] by blast
  obtain s' where
    lp: "epochs_loop W a trl vll optimizer E es s1 = (Inr (), s')" and
    a': "adam_steps s' = adam_steps s1 + length es * rounds_run E 0 (num_batches trl)" and
    n': "n_iter s' = n_iter s1 + int (length es * increments_made E 0 (num_batches trl))"
    using Cons.IH [OF o1] by blast
  have "epochs_loop W a trl vll optimizer E (epoch # es) s = (Inr (), s')"
    using b lp by simp
  then show ?case using a1 n1 a' n' by (simp add: algebra_simps)
qed

text \<open>
  The counters after a run without \<^verbatim>\<open>--log-output\<close> that meets no error: every epoch
  makes \<open>rounds_run\<close> optimizer steps and \<open>increments_made\<close> increments of \<^verbatim>\<open>n_iter\<close>.
\<close>

lemma main_counters:
  assumes "dataset_format a = ''stacked'' \<and> folder = Stacked \<or>
           dataset_format a = ''sequential'' \<and> folder = Sequential"
    and "\<not> log_output a" and "print_freq a \<noteq> 0" and "0 < batch_size a"
    and "num_batches (train_set W folder) \<noteq> 0" and "num_batches (val_set W folder) \<noteq> 0"
    and "0 \<le> (int (num_batches (val_set W folder)) - 1) * batch_size a
              * (sequence_length a - 1)"
    and "E = (if epoch_size a = 0 then int (num_batches (train_set W folder))
              else epoch_size a)"
  shows "fst (main W a) = Inr () \<and>
     adam_steps (snd (main W a))
       = nat (epochs a) * rounds_run E 0 (num_batches (train_set W folder)) \<and>
     n_iter (snd (main W a))
       = int (nat (epochs a) * increments_made E 0 (num_batches (train_set W folder)))"
proof -
  define optimizer where
    "optimizer = Adam (combined_parameters [disp_net (initial W a), pose_exp_net (initial W a)])"
  define s0 where "s0 = start_logs a (initial W a)"
  have m: "main W a = epochs_loop W a (train_set W folder) (val_set W folder) optimizer E
      [0..<nat (epochs a)] s0"
    using assms(1,4,8) by (auto simp add: main_def Let_def optimizer_def s0_def)
  have o: "output_writers s0 = []"
    using assms(2) by (simp add: s0_def start_logs_def initial_def)
  have bs: "batch_size a \<noteq> 0" using assms(4) by simp
  obtain s' where
    "epochs_loop W a (train_set W folder) (val_set W folder) optimizer E
       [0..<nat (epochs a)] s0 = (Inr (), s')" and
    "adam_steps s' = adam_steps s0
       + length [0..<nat (epochs a)] * rounds_run E 0 (num_batches (train_set W folder))" and
    "n_iter s' = n_iter s0
       + int (length [0..<nat (epochs a)] * increments_made E 0 (num_batches (train_set W folder)))"
    using epochs_loop_counters [OF assms(2,3) bs assms(5-7) o, of W optimizer E "[0..<nat (epochs a)]"]
    by blast
  then show ?thesis
    by (simp add: m s0_def start_logs_def initial_def)
qed

text \<open>
  C1. With an epoch size of 3 and a training loader of 10 batches, the run of two epochs
  ends without error after 6 optimizer steps, but the step counter \<^verbatim>\<open>n_iter\<close> ends at 4:
  in the round that reaches the epoch size, the \<^verbatim>\<open>break\<close> of line 298 leaves the loop
  before \<^verbatim>\<open>n_iter += 1\<close> of line 300.
\<close>

theorem n_iter_after_two_truncated_epochs:
  "fst (main truncation_world example_args) = Inr () \<and>
   adam_steps (snd (main truncation_world example_args)) = 6 \<and>
   n_iter (snd (main truncation_world example_args)) = 4"
proof -
  have "fst (main truncation_world example_args) = Inr () \<and>
     adam_steps (snd (main truncation_world example_args))
       = nat (epochs example_args)
          * rounds_run 3 0 (num_batches (train_set truncation_world Sequential)) \<and>
     n_iter (snd (main truncation_world example_args))
       = int (nat (epochs example_args)
          * increments_made 3 0 (num_batches (train_set truncation_world Sequential)))"
    by (rule main_counters)
       (simp_all add: truncation_world_def example_world_def example_args_def)
  then show ?thesis
    by (simp add: truncation_world_def example_world_def example_args_def rounds_run_def
          increments_made_def)
qed

end
